theory Spec2Isabelle
  imports Complex_Main "HOL-Library.AList" "HOL-Library.Sublist"
begin

section \<open>JavaScript values and the object store\<close>

text \<open>
  The hotcue player (\<^verbatim>\<open>src/src/CustomVideoPlayer.js\<close>) is dynamically typed and keeps its
  hotcue tables in objects that several references may share. Values are therefore
  modelled untyped, and objects live in an explicit store.

  \<^item> A number is \<open>NaN\<close> or a finite value. Finite doubles are idealised as reals:
    rounding, the infinities and the negative zero are not represented.
  \<^item> An object (or array) is the list of its own enumerable properties, in the order
    \<^verbatim>\<open>Object.keys\<close> lists them. The prototype chain, non-enumerable properties and
    functions are not represented: reading a property an object does not own gives
    \<^verbatim>\<open>undefined\<close>.
  \<^item> The store is a list of objects, an address is an index into it, and allocation
    appends. Nothing in the component writes into an object that already escaped the
    expression building it, so the store only grows.
\<close>

datatype jsnum = NaN | Num real

datatype jsval = JUndefined | JNull | JBool bool | JNum jsnum | JStr string | JRef nat

datatype error = TypeError | PlayerError

type_synonym jsobj = "(string \<times> jsval) list"

type_synonym heap = "jsobj list"

definition obj_at :: "heap \<Rightarrow> nat \<Rightarrow> jsobj" where
  "obj_at h a = (if a < length h then h ! a else [])"

definition alloc :: "heap \<Rightarrow> jsobj \<Rightarrow> heap \<times> jsval" where
  "alloc h obj = (h @ [obj], JRef (length h))"

definition and_then :: "error + 'a \<Rightarrow> ('a \<Rightarrow> error + 'b) \<Rightarrow> error + 'b" where
  "and_then r f = (case r of Inl e \<Rightarrow> Inl e | Inr x \<Rightarrow> f x)"

text \<open>\<^verbatim>\<open>ToBoolean\<close>, as applied by \<^verbatim>\<open>!v\<close>, \<^verbatim>\<open>v && ...\<close> and \<^verbatim>\<open>v || ...\<close>.\<close>

fun truthy :: "jsval \<Rightarrow> bool" where
  "truthy JUndefined = False"
| "truthy JNull = False"
| "truthy (JBool b) = b"
| "truthy (JNum NaN) = False"
| "truthy (JNum (Num r)) = (r \<noteq> 0)"
| "truthy (JStr s) = (s \<noteq> [])"
| "truthy (JRef a) = True"

fun typeof :: "jsval \<Rightarrow> string" where
  "typeof JUndefined = ''undefined''"
| "typeof JNull = ''object''"
| "typeof (JBool b) = ''boolean''"
| "typeof (JNum n) = ''number''"
| "typeof (JStr s) = ''string''"
| "typeof (JRef a) = ''object''"

text \<open>\<^verbatim>\<open>a === b\<close>: equal values, objects by identity, and \<^verbatim>\<open>NaN\<close> equal to nothing.\<close>

definition strict_eq :: "jsval \<Rightarrow> jsval \<Rightarrow> bool" where
  "strict_eq a b = (a = b \<and> a \<noteq> JNum NaN)"

definition isNaN :: "jsval \<Rightarrow> bool" where
  "isNaN v = (v = JNum NaN)"

text \<open>\<^verbatim>\<open>a || b\<close> on values.\<close>

definition js_or :: "jsval \<Rightarrow> jsval \<Rightarrow> jsval" where
  "js_or a b = (if truthy a then a else b)"

text \<open>The decimal name of an index, as \<^verbatim>\<open>Object.keys\<close> gives for the characters of a string.\<close>

fun dec :: "nat \<Rightarrow> string" where
  "dec n = (if n < 10 then [char_of (48 + n)] else dec (n div 10) @ [char_of (48 + n mod 10)])"

text \<open>
  The own enumerable properties of a value: those of the object behind a reference, the
  characters of a string, none for the other primitives. This is also what the spread
  \<^verbatim>\<open>{...v}\<close> copies, which accepts \<^verbatim>\<open>null\<close> and \<^verbatim>\<open>undefined\<close>.
\<close>

fun own_props :: "heap \<Rightarrow> jsval \<Rightarrow> jsobj" where
  "own_props h (JRef a) = obj_at h a"
| "own_props h (JStr s) = map (\<lambda>(i, c). (dec i, JStr [c])) (enumerate 0 s)"
| "own_props h v = []"

definition get_prop :: "heap \<Rightarrow> jsval \<Rightarrow> string \<Rightarrow> jsval" where
  "get_prop h v k = (case map_of (own_props h v) k of None \<Rightarrow> JUndefined | Some x \<Rightarrow> x)"

text \<open>\<^verbatim>\<open>Object.keys(v)\<close> and \<^verbatim>\<open>v[k]\<close> throw a TypeError on \<^verbatim>\<open>null\<close> and \<^verbatim>\<open>undefined\<close>.\<close>

definition object_keys :: "heap \<Rightarrow> jsval \<Rightarrow> error + string list" where
  "object_keys h v =
     (if v = JUndefined \<or> v = JNull then Inl TypeError else Inr (map fst (own_props h v)))"

definition get :: "heap \<Rightarrow> jsval \<Rightarrow> string \<Rightarrow> error + jsval" where
  "get h v k = (if v = JUndefined \<or> v = JNull then Inl TypeError else Inr (get_prop h v k))"

text \<open>
  What a reference denotes two levels deep: each own property of \<open>v\<close> with the own
  properties of its value. For a hotcue table this is the mapping from key to
  \<^verbatim>\<open>{time, name}\<close>.
\<close>

definition contents :: "heap \<Rightarrow> jsval \<Rightarrow> (string \<times> jsobj) list" where
  "contents h v = map (\<lambda>(k, x). (k, own_props h x)) (own_props h v)"

section \<open>Normalisation of hotcue tables\<close>

text \<open>
  \<^verbatim>\<open>normalizeHotcues\<close> (lines 23-37). The body of the \<^verbatim>\<open>forEach\<close> either stores a fresh
  \<^verbatim>\<open>{time, name}\<close> object under the key or skips the key; \<open>normalize_entry\<close> is the
  object literal it builds. The loop threads the store and the properties of the local
  object \<^verbatim>\<open>normalized\<close>, which is allocated when it is returned. Objects allocated by the
  loop are not reachable from its argument, so the argument is read in the store \<open>h0\<close>
  the function was entered with.
\<close>

definition normalize_entry :: "heap \<Rightarrow> jsval \<Rightarrow> error + jsobj option" where
  "normalize_entry h v =
     (if typeof v = ''number'' then Inr (Some [(''time'', v), (''name'', JStr '''')])
      else if truthy v \<and> typeof v = ''object'' then
        and_then (get h v ''time'') (\<lambda>t.
          if typeof t = ''number'' then
            and_then (get h v ''time'') (\<lambda>t'.
            and_then (get h v ''name'') (\<lambda>n.
              Inr (Some [(''time'', t'), (''name'', js_or n (JStr ''''))])))
          else Inr None)
      else Inr None)"

fun normalize_loop :: "heap \<Rightarrow> jsval \<Rightarrow> string list \<Rightarrow> heap \<times> jsobj \<Rightarrow> error + heap \<times> jsobj" where
  "normalize_loop h0 hotcues [] acc = Inr acc"
| "normalize_loop h0 hotcues (k # ks) (h, normalized) =
     and_then (get h0 hotcues k) (\<lambda>v.
     and_then (normalize_entry h0 v) (\<lambda>r.
       case r of
         None \<Rightarrow> normalize_loop h0 hotcues ks (h, normalized)
       | Some lit \<Rightarrow>
           (case alloc h lit of (h', e) \<Rightarrow>
              normalize_loop h0 hotcues ks (h', AList.update k e normalized))))"

definition normalizeHotcues :: "heap \<Rightarrow> jsval \<Rightarrow> error + heap \<times> jsval" where
  "normalizeHotcues h hotcues =
     (if \<not> truthy hotcues then Inr (alloc h [])
      else
        and_then (object_keys h hotcues) (\<lambda>keys.
        and_then (normalize_loop h hotcues keys (h, [])) (\<lambda>(h', normalized).
          Inr (alloc h' normalized))))"

section \<open>The component\<close>

subsection \<open>The embedded player\<close>

text \<open>
  The YouTube player behind \<^verbatim>\<open>playerRef.current\<close> is an external collaborator. Its
  answers are inputs of the model: what \<^verbatim>\<open>getCurrentTime()\<close> and
  \<^verbatim>\<open>getPlayerState()\<close> return, or that they throw, and whether each command throws.
  Every method call the component makes is appended to the log \<open>calls\<close>, a call that
  throws included.
\<close>

datatype call = GetCurrentTime | GetPlayerState | SeekTo jsval bool | PlayVideo | PauseVideo

record player =
  getCurrentTime :: "error + jsval"
  getPlayerState :: "error + jsval"
  seekTo_throws :: bool
  playVideo_throws :: bool
  pauseVideo_throws :: bool

definition PLAYING :: jsval where
  "PLAYING = JNum (Num 1)"

definition LETTER_KEYS :: "string list" where
  "LETTER_KEYS =
     [''q'', ''w'', ''e'', ''r'', ''t'', ''y'', ''u'', ''i'', ''o'', ''p'', ''a'', ''s'', ''d'',
      ''f'', ''g'', ''h'', ''j'', ''k'', ''l'', ''z'', ''x'', ''c'', ''v'', ''b'', ''n'', ''m'']"

subsection \<open>State\<close>

text \<open>
  The \<^verbatim>\<open>useState\<close> cells and \<^verbatim>\<open>useRef\<close> cells of \<^verbatim>\<open>CustomVideoPlayer\<close> that the
  handlers below read or write, together with the object store and the call log.
  Timers (the 250 ms flash, the 5 s message expiry, the 100 ms polling) are not
  modelled.
\<close>

record rect =
  rect_left :: real
  rect_width :: real

record message =
  msg_type :: string
  msg_text :: string

record component =
  heap :: heap
  hotcues :: jsval
  hotcuesRef :: jsval
  initialHotcuesRef :: jsval
  playerRef :: "player option"
  isPlayerReady :: bool
  isPlayerReadyRef :: bool
  currentTime :: jsnum
  duration :: real
  isSettingHotcue :: "string option"
  triggeredHotcue :: "string option"
  editingHotcue :: "string option"
  editingLabel :: jsval
  isDragging :: bool
  dragTime :: jsnum
  progressBarRef :: "rect option"
  isSaving :: bool
  saveMessage :: "message option"
  calls :: "call list"

text \<open>
  The state at mount (lines 39-54): three separate calls of \<^verbatim>\<open>normalizeHotcues\<close> on the
  \<^verbatim>\<open>initialHotcues\<close> prop, everything else at its default.
\<close>

definition mount :: "heap \<Rightarrow> jsval \<Rightarrow> error + component" where
  "mount h initialHotcues =
     and_then (normalizeHotcues h initialHotcues) (\<lambda>(h1, a).
     and_then (normalizeHotcues h1 initialHotcues) (\<lambda>(h2, b).
     and_then (normalizeHotcues h2 initialHotcues) (\<lambda>(h3, c).
       Inr \<lparr>heap = h3, hotcues = a, hotcuesRef = b, initialHotcuesRef = c,
            playerRef = None, isPlayerReady = False, isPlayerReadyRef = False,
            currentTime = Num 0, duration = 0, isSettingHotcue = None,
            triggeredHotcue = None, editingHotcue = None, editingLabel = JStr '''',
            isDragging = False, dragTime = Num 0, progressBarRef = None,
            isSaving = False, saveMessage = None, calls = []\<rparr>)))"

text \<open>The effects that keep the refs in step with the state after a render (lines 57-63).\<close>

definition sync_refs :: "component \<Rightarrow> component" where
  "sync_refs s = s\<lparr>hotcuesRef := hotcues s, isPlayerReadyRef := isPlayerReady s\<rparr>"

text \<open>The effect that loads the hotcues of a newly selected video (lines 66-79).\<close>

definition loadInitialHotcues :: "component \<Rightarrow> jsval \<Rightarrow> error + component" where
  "loadInitialHotcues s initialHotcues =
     (if truthy initialHotcues then
        and_then (normalizeHotcues (heap s) initialHotcues) (\<lambda>(h1, normalized).
          Inr (s\<lparr>heap := h1, hotcues := normalized, hotcuesRef := normalized,
                 initialHotcuesRef := normalized\<rparr>))
      else
        (case alloc (heap s) [] of (h1, a) \<Rightarrow>
         case alloc h1 [] of (h2, b) \<Rightarrow>
         case alloc h2 [] of (h3, c) \<Rightarrow>
           Inr (s\<lparr>heap := h3, hotcues := a, hotcuesRef := b, initialHotcuesRef := c\<rparr>)))"

subsection \<open>Dirty check\<close>


definition time_of :: "heap \<Rightarrow> jsval \<Rightarrow> error + jsval" where
  "time_of h hotcue = (if typeof hotcue = ''number'' then Inr hotcue else get h hotcue ''time'')"

definition name_of :: "heap \<Rightarrow> jsval \<Rightarrow> error + jsval" where
  "name_of h hotcue =
     (if typeof hotcue = ''object'' then
        and_then (get h hotcue ''name'') (\<lambda>n. Inr (js_or n (JStr '''')))
      else Inr (JStr ''''))"




subsection \<open>Keyboard dispatcher\<close>

record key_event =
  tagName :: string
  key :: string
  code :: string

text \<open>\<^verbatim>\<open>toLowerCase\<close> on the ASCII letters; a \<open>char\<close> is a byte.\<close>

definition toLowerCase :: "string \<Rightarrow> string" where
  "toLowerCase str =
     map (\<lambda>c. case map_of (zip ''ABCDEFGHIJKLMNOPQRSTUVWXYZ'' ''abcdefghijklmnopqrstuvwxyz'') c of
                None \<Rightarrow> c
              | Some l \<Rightarrow> l) str"

text \<open>The jump branch (lines 319-335): \<^verbatim>\<open>seekTo\<close> then \<^verbatim>\<open>playVideo\<close> inside one \<^verbatim>\<open>try\<close>.\<close>

definition jump_to :: "component \<Rightarrow> player \<Rightarrow> string \<Rightarrow> jsval \<Rightarrow> component" where
  "jump_to s p k hotcueTime =
     (let s1 = s\<lparr>isSettingHotcue := None, triggeredHotcue := Some k\<rparr>;
          s2 = s1\<lparr>calls := calls s1 @ [SeekTo hotcueTime True]\<rparr>
      in if seekTo_throws p then s2 else s2\<lparr>calls := calls s2 @ [PlayVideo]\<rparr>)"

text \<open>The set branch (lines 336-360).\<close>

definition set_at_current_time :: "component \<Rightarrow> player \<Rightarrow> string \<Rightarrow> component" where
  "set_at_current_time s p k =
     (let s1 = s\<lparr>calls := calls s @ [GetCurrentTime]\<rparr> in
      case getCurrentTime p of
        Inl err \<Rightarrow> s1\<lparr>isSettingHotcue := None, triggeredHotcue := None\<rparr>
      | Inr now \<Rightarrow>
          if typeof now = ''number'' \<and> \<not> isNaN now then
            (case alloc (heap s1) [(''time'', now), (''name'', JStr '''')] of (h1, entry) \<Rightarrow>
             case alloc h1 (AList.update k entry (own_props (heap s1) (hotcuesRef s1))) of
               (h2, newHotcues) \<Rightarrow>
                 s1\<lparr>heap := h2, hotcues := newHotcues, hotcuesRef := newHotcues,
                    triggeredHotcue := Some k\<rparr>)
          else s1)"

text \<open>The play/pause branch (lines 361-376).\<close>

definition toggle_playback :: "component \<Rightarrow> component" where
  "toggle_playback s =
     (case playerRef s of
        None \<Rightarrow> s
      | Some p \<Rightarrow>
          if isPlayerReadyRef s then
            (let s1 = s\<lparr>calls := calls s @ [GetPlayerState]\<rparr> in
             case getPlayerState p of
               Inl err \<Rightarrow> s1
             | Inr state \<Rightarrow>
                 if strict_eq state PLAYING then s1\<lparr>calls := calls s1 @ [PauseVideo]\<rparr>
                 else s1\<lparr>calls := calls s1 @ [PlayVideo]\<rparr>)
          else s)"

text \<open>
  \<^verbatim>\<open>handleKeyPress\<close> (lines 303-377). The reads \<^verbatim>\<open>currentHotcues[key]\<close> and
  \<^verbatim>\<open>hotcue.time\<close> stand outside the \<^verbatim>\<open>try\<close> blocks, so a TypeError there leaves the
  handler.
\<close>

definition handleKeyPress :: "component \<Rightarrow> key_event \<Rightarrow> error + component" where
  "handleKeyPress s e =
     (if tagName e = ''INPUT'' \<or> tagName e = ''TEXTAREA'' then Inr s
      else
        (let k = toLowerCase (key e);
             currentPlayer = playerRef s;
             currentReady = isPlayerReadyRef s;
             currentHotcues = hotcuesRef s
         in if k \<in> set LETTER_KEYS \<and> currentPlayer \<noteq> None \<and> currentReady then
              (case currentPlayer of
                 None \<Rightarrow> Inr s
               | Some p \<Rightarrow>
                   and_then (get (heap s) currentHotcues k) (\<lambda>hotcue.
                     if hotcue \<noteq> JUndefined then
                       and_then (time_of (heap s) hotcue) (\<lambda>hotcueTime.
                         Inr (jump_to s p k hotcueTime))
                     else Inr (set_at_current_time s p k)))
            else if code e = ''Space'' \<or> key e = ''k'' then Inr (toggle_playback s)
            else Inr s))"

subsection \<open>Label editing and clearing\<close>

text \<open>\<^verbatim>\<open>String.prototype.trim\<close> on the ASCII white space; calling it on a non-string throws.\<close>

definition is_space :: "char \<Rightarrow> bool" where
  "is_space c = (c \<in> set [CHR 0x20, CHR 0x09, CHR 0x0A, CHR 0x0B, CHR 0x0C, CHR 0x0D])"

definition trim :: "string \<Rightarrow> string" where
  "trim str = rev (dropWhile is_space (rev (dropWhile is_space str)))"

definition js_trim :: "jsval \<Rightarrow> error + jsval" where
  "js_trim v = (case v of JStr str \<Rightarrow> Inr (JStr (trim str)) | _ \<Rightarrow> Inl TypeError)"

text \<open>\<^verbatim>\<open>handleHotcueLabelClick\<close> (lines 514-518).\<close>

definition handleHotcueLabelClick :: "component \<Rightarrow> string \<Rightarrow> jsval \<Rightarrow> error + component" where
  "handleHotcueLabelClick s k hotcue =
     (if \<not> truthy hotcue then Inr s
      else and_then (name_of (heap s) hotcue) (\<lambda>n.
             Inr (s\<lparr>editingHotcue := Some k, editingLabel := n\<rparr>)))"

text \<open>
  \<^verbatim>\<open>handleHotcueLabelBlur\<close> (lines 520-537) computes the new table twice: the state
  updater from the previous state \<^verbatim>\<open>prev\<close>, and the handler itself from
  \<^verbatim>\<open>hotcuesRef.current\<close>. \<open>relabel_state\<close> is the updater, which always returns a
  copy; \<open>relabel_ref\<close> is the second computation, which leaves the ref alone when the
  key has no hotcue.
\<close>

definition relabel_state :: "heap \<Rightarrow> jsval \<Rightarrow> string \<Rightarrow> jsval \<Rightarrow> error + heap \<times> jsval" where
  "relabel_state h prev k label =
     (let newHotcues = own_props h prev in
      if truthy (get_prop h prev k) then
        and_then (time_of h (get_prop h prev k)) (\<lambda>t.
        and_then (js_trim label) (\<lambda>n.
          case alloc h [(''time'', t), (''name'', n)] of (h1, entry) \<Rightarrow>
            Inr (alloc h1 (AList.update k entry newHotcues))))
      else Inr (alloc h newHotcues))"

definition relabel_ref :: "heap \<Rightarrow> jsval \<Rightarrow> string \<Rightarrow> jsval \<Rightarrow> error + heap \<times> jsval" where
  "relabel_ref h current k label =
     and_then (get h current k) (\<lambda>currentHotcue.
       if truthy currentHotcue then
         and_then (time_of h currentHotcue) (\<lambda>t.
         and_then (js_trim label) (\<lambda>n.
           case alloc h [(''time'', t), (''name'', n)] of (h1, entry) \<Rightarrow>
             Inr (alloc h1 (AList.update k entry (own_props h current)))))
       else Inr (h, current))"

definition handleHotcueLabelBlur :: "component \<Rightarrow> string \<Rightarrow> error + component" where
  "handleHotcueLabelBlur s k =
     and_then (relabel_state (heap s) (hotcues s) k (editingLabel s)) (\<lambda>(h1, newState).
     and_then (relabel_ref h1 (hotcuesRef s) k (editingLabel s)) (\<lambda>(h2, newRef).
       Inr (s\<lparr>heap := h2, hotcues := newState, hotcuesRef := newRef,
              editingHotcue := None, editingLabel := JStr ''''\<rparr>)))"

text \<open>\<^verbatim>\<open>clearHotcue\<close> (lines 557-564): a copy of the previous state without the key.\<close>

definition clearHotcue :: "component \<Rightarrow> string \<Rightarrow> component" where
  "clearHotcue s k =
     (case alloc (heap s) (AList.delete k (own_props (heap s) (hotcues s))) of
        (h1, newHotcues) \<Rightarrow> s\<lparr>heap := h1, hotcues := newHotcues, hotcuesRef := newHotcues\<rparr>)"

subsection \<open>Save and discard\<close>

text \<open>
  The props and the \<^verbatim>\<open>localStorage\<close> entry that \<^verbatim>\<open>handleSave\<close> reads, and what the
  request to the persistence service settles to. An error body has the fields of the
  wire format \<^verbatim>\<open>{error, details, missingFields, type}\<close>, each optional.
\<close>

record save_props =
  youtubeUrl :: "string option"
  videoId :: "string option"
  username :: "string option"

record error_data =
  err_error :: "string option"
  err_details :: "string option"
  err_missingFields :: "string list option"
  err_type :: "string option"

record http_response =
  resp_data :: error_data
  resp_statusText :: string

record axios_error =
  err_code :: "string option"
  err_message :: string
  err_response :: "http_response option"

datatype outcome = Resolved "string option" | Rejected axios_error

definition falsy :: "string option \<Rightarrow> bool" where
  "falsy v = (v = None \<or> v = Some '''')"

definition or_else :: "string option \<Rightarrow> string \<Rightarrow> string" where
  "or_else v d = (case v of None \<Rightarrow> d | Some str \<Rightarrow> if str = '''' then d else str)"

fun join :: "string \<Rightarrow> string list \<Rightarrow> string" where
  "join sep [] = ''''"
| "join sep [x] = x"
| "join sep (x # y # ys) = x @ sep @ join sep (y # ys)"

text \<open>\<^verbatim>\<open>str.includes(part)\<close>.\<close>

definition str_includes :: "string \<Rightarrow> string \<Rightarrow> bool" where
  "str_includes str part = sublist part str"

text \<open>The text built in the \<^verbatim>\<open>catch\<close> block (lines 631-651).\<close>

definition errorMessage :: "axios_error \<Rightarrow> string" where
  "errorMessage err =
     ''Failed to save video. '' @
     (if err_code err = Some ''ECONNREFUSED'' \<or> err_code err = Some ''ERR_NETWORK'' then
        ''Cannot connect to backend server. Is it running on port 3001?''
      else if err_code err = Some ''ECONNABORTED'' \<or> str_includes (err_message err) ''timeout'' then
        ''Request timed out. Please try again.''
      else
        (case err_response err of
           Some resp \<Rightarrow>
             (let errorData = resp_data resp in
              or_else (err_error errorData) (or_else (err_details errorData) (resp_statusText resp)) @
              (case err_missingFields errorData of
                 None \<Rightarrow> ''''
               | Some missing \<Rightarrow> '' Missing: '' @ join '', '' missing) @
              (case err_type errorData of
                 None \<Rightarrow> ''''
               | Some t \<Rightarrow> if t = '''' then '''' else '' ('' @ t @ '')''))
         | None \<Rightarrow> or_else (Some (err_message err)) ''Unknown error occurred.''))"

text \<open>The two early returns of \<^verbatim>\<open>handleSave\<close> (lines 570-586).\<close>

definition save_refused :: "save_props \<Rightarrow> message option" where
  "save_refused ps =
     (if falsy (youtubeUrl ps) \<or> falsy (videoId ps) then
        Some \<lparr>msg_type = ''error'',
              msg_text = trim (''Missing required data: '' @
                (if falsy (youtubeUrl ps) then ''YouTube URL'' else '''') @ '' '' @
                (if falsy (videoId ps) then ''Video ID'' else ''''))\<rparr>
      else if falsy (username ps) then
        Some \<lparr>msg_type = ''error'', msg_text = ''You must be logged in to save videos''\<rparr>
      else None)"

text \<open>
  What runs once the request has settled (lines 608-659). On success the snapshot
  becomes \<^verbatim>\<open>{ ...hotcuesRef.current }\<close>: a new object with the properties of the live
  table as it is at that moment.
\<close>

definition save_settled :: "component \<Rightarrow> outcome \<Rightarrow> component" where
  "save_settled s out =
     (case out of
        Resolved msg \<Rightarrow>
          (case alloc (heap s) (own_props (heap s) (hotcuesRef s)) of (h1, snapshot) \<Rightarrow>
             s\<lparr>heap := h1, initialHotcuesRef := snapshot,
               saveMessage := Some \<lparr>msg_type = ''success'',
                 msg_text = or_else msg ''Video and hotcues saved successfully!''\<rparr>,
               isSaving := False\<rparr>)
      | Rejected err \<Rightarrow>
          s\<lparr>saveMessage := Some \<lparr>msg_type = ''error'', msg_text = errorMessage err\<rparr>,
            isSaving := False\<rparr>)"

text \<open>\<^verbatim>\<open>handleSave\<close> (lines 569-660) when no other event arrives while the request is in flight.\<close>

definition handleSave :: "component \<Rightarrow> save_props \<Rightarrow> outcome \<Rightarrow> component" where
  "handleSave s ps out =
     (case save_refused ps of
        Some m \<Rightarrow> s\<lparr>saveMessage := Some m\<rparr>
      | None \<Rightarrow> save_settled (s\<lparr>isSaving := True, saveMessage := None\<rparr>) out)"

text \<open>\<^verbatim>\<open>discardChanges\<close> (lines 663-669).\<close>

definition discardChanges :: "component \<Rightarrow> component" where
  "discardChanges s = s\<lparr>hotcues := initialHotcuesRef s, hotcuesRef := initialHotcuesRef s\<rparr>"

subsection \<open>Progress bar\<close>

text \<open>
  \<^verbatim>\<open>calculateSeekTime\<close> (lines 441-447). With a bar of width zero the quotient is an
  infinity or \<^verbatim>\<open>NaN\<close>; the clamp turns the infinities into 1 and 0.
\<close>

definition calculateSeekTime :: "component \<Rightarrow> real \<Rightarrow> jsnum" where
  "calculateSeekTime s clientX =
     (case progressBarRef s of
        None \<Rightarrow> Num 0
      | Some r \<Rightarrow>
          if duration s = 0 then Num 0
          else
            (let clickX = clientX - rect_left r in
             if rect_width r = 0 then
               (if clickX > 0 then Num (1 * duration s)
                else if clickX < 0 then Num (0 * duration s)
                else NaN)
             else Num (max 0 (min 1 (clickX / rect_width r)) * duration s)))"

definition seek_now :: "component \<Rightarrow> player \<Rightarrow> jsnum \<Rightarrow> component" where
  "seek_now s p seekTime =
     (let s1 = s\<lparr>calls := calls s @ [SeekTo (JNum seekTime) True]\<rparr>
      in if seekTo_throws p then s1 else s1\<lparr>currentTime := seekTime\<rparr>)"

definition handleProgressBarMouseDown :: "component \<Rightarrow> real \<Rightarrow> component" where
  "handleProgressBarMouseDown s clientX =
     (if playerRef s = None \<or> \<not> isPlayerReady s \<or> duration s = 0 then s
      else s\<lparr>isDragging := True, dragTime := calculateSeekTime s clientX\<rparr>)"

definition handleProgressBarMouseMove :: "component \<Rightarrow> real \<Rightarrow> component" where
  "handleProgressBarMouseMove s clientX =
     (if \<not> isDragging s \<or> duration s = 0 then s
      else s\<lparr>dragTime := calculateSeekTime s clientX\<rparr>)"

definition handleProgressBarMouseUp :: "component \<Rightarrow> real \<Rightarrow> component" where
  "handleProgressBarMouseUp s clientX =
     (case playerRef s of
        None \<Rightarrow> s
      | Some p \<Rightarrow>
          if \<not> isDragging s \<or> \<not> isPlayerReady s then s
          else seek_now (s\<lparr>isDragging := False, dragTime := Num 0\<rparr>) p
                 (calculateSeekTime s clientX))"

definition handleProgressBarClick :: "component \<Rightarrow> real \<Rightarrow> component" where
  "handleProgressBarClick s clientX =
     (if isDragging s then s
      else
        (case playerRef s of
           None \<Rightarrow> s
         | Some p \<Rightarrow>
             if \<not> isPlayerReady s \<or> duration s = 0 then s
             else seek_now s p (calculateSeekTime s clientX)))"

text \<open>
  The pointer events of the track, each carrying \<^verbatim>\<open>clientX\<close>. The handlers are rebuilt at
  every render (\<^verbatim>\<open>useCallback\<close> on the state they read), and a render completes between
  two events, so each event meets the state its predecessor left. The \<^verbatim>\<open>mousemove\<close> and
  \<^verbatim>\<open>mouseup\<close> listeners are registered on the document only while dragging
  (lines 494-512). A press and release over the track reaches the handlers as
  \<^verbatim>\<open>mousedown\<close>, \<^verbatim>\<open>mouseup\<close>, \<^verbatim>\<open>click\<close>, in this order.
\<close>

datatype pointer_event = MouseDown real | MouseMove real | MouseUp real | Click real

fun pointer_step :: "component \<Rightarrow> pointer_event \<Rightarrow> component" where
  "pointer_step s (MouseDown x) = handleProgressBarMouseDown s x"
| "pointer_step s (MouseMove x) = (if isDragging s then handleProgressBarMouseMove s x else s)"
| "pointer_step s (MouseUp x) = (if isDragging s then handleProgressBarMouseUp s x else s)"
| "pointer_step s (Click x) = handleProgressBarClick s x"

definition pointer_run :: "component \<Rightarrow> pointer_event list \<Rightarrow> component" where
  "pointer_run s evs = foldl pointer_step s evs"

section \<open>Notions used in the statements\<close>

text \<open>
  The object literal that \<open>normalize_entry\<close> builds, as a function of the property
  reads, and the loop of \<open>normalizeHotcues\<close> on these literals.
\<close>

definition entry_lit :: "heap \<Rightarrow> jsval \<Rightarrow> jsobj option" where
  "entry_lit h v =
     (if typeof v = ''number'' then Some [(''time'', v), (''name'', JStr '''')]
      else if truthy v \<and> typeof v = ''object'' \<and> typeof (get_prop h v ''time'') = ''number''
      then Some [(''time'', get_prop h v ''time''),
                 (''name'', js_or (get_prop h v ''name'') (JStr ''''))]
      else None)"

fun lit_loop :: "heap \<Rightarrow> jsval \<Rightarrow> string list \<Rightarrow> (string \<times> jsobj) list \<Rightarrow> (string \<times> jsobj) list" where
  "lit_loop h x [] acc = acc"
| "lit_loop h x (k # ks) acc =
     (case entry_lit h (get_prop h x k) of
        None \<Rightarrow> lit_loop h x ks acc
      | Some lit \<Rightarrow> lit_loop h x ks (AList.update k lit acc))"

definition norm_lits :: "heap \<Rightarrow> jsval \<Rightarrow> (string \<times> jsobj) list" where
  "norm_lits h x = lit_loop h x (map fst (own_props h x)) []"

text \<open>
  A well-formed entry: exactly the properties \<^verbatim>\<open>time\<close>, a number, and \<^verbatim>\<open>name\<close>, which
  is the given name or the empty string.
\<close>

fun well_formed :: "jsobj \<Rightarrow> bool" where
  "well_formed [(a, t), (b, n)] =
     (a = ''time'' \<and> b = ''name'' \<and> typeof t = ''number'' \<and> (truthy n \<or> n = JStr ''''))"
| "well_formed c = False"

text \<open>Every value of the property list is a reference to an object allocated below \<open>n\<close>.\<close>

definition refs_below :: "nat \<Rightarrow> jsobj \<Rightarrow> bool" where
  "refs_below n al = list_all (\<lambda>(k, v). case v of JRef e \<Rightarrow> e < n | _ \<Rightarrow> False) al"

text \<open>
  \<open>table_at h v\<close>: \<open>v\<close> refers to an object of the store whose property values are
  objects of the store. Every table the component builds is of this kind.
\<close>

definition table_at :: "heap \<Rightarrow> jsval \<Rightarrow> bool" where
  "table_at h v = (case v of JRef a \<Rightarrow> a < length h \<and> refs_below (length h) (obj_at h a) | _ \<Rightarrow> False)"




text \<open>
  The three ways the live table is edited: a key press that sets a hotcue, the clear
  button, and typing a label then leaving the field.
\<close>

datatype edit = Press key_event | Clear string | Relabel string string

fun apply_edit :: "component \<Rightarrow> edit \<Rightarrow> error + component" where
  "apply_edit s (Press e) = handleKeyPress s e"
| "apply_edit s (Clear k) = Inr (clearHotcue s k)"
| "apply_edit s (Relabel k label) = handleHotcueLabelBlur (s\<lparr>editingLabel := JStr label\<rparr>) k"

text \<open>
  The assignment \<^verbatim>\<open>obj[k] = v\<close> of the language, which writes into the object in place.
  The component never executes it on an object of a table; it serves to state what
  sharing would allow.
\<close>

definition assign :: "heap \<Rightarrow> nat \<Rightarrow> string \<Rightarrow> jsval \<Rightarrow> heap" where
  "assign h a k v = (if a < length h then h[a := AList.update k v (h ! a)] else h)"

text \<open>What stays as it is while the pointer moves during a drag.\<close>

definition same_session :: "component \<Rightarrow> component \<Rightarrow> bool" where
  "same_session s s' =
     (calls s' = calls s \<and> playerRef s' = playerRef s \<and> isPlayerReady s' = isPlayerReady s \<and>
      duration s' = duration s \<and> progressBarRef s' = progressBarRef s \<and>
      isDragging s' = isDragging s)"

section \<open>Concrete states\<close>

text \<open>
  A player that is playing at time \<open>t\<close> and accepts every command, and the component
  after the table \<open>tbl\<close> of the store \<open>h\<close> was loaded for a video and the player \<open>p\<close>
  reported ready: the state, its ref and the snapshot are the same object
  (lines 69-72), nothing is being edited or dragged, and the track is not mounted.
\<close>

definition playing_at :: "real \<Rightarrow> player" where
  "playing_at t =
     \<lparr>getCurrentTime = Inr (JNum (Num t)), getPlayerState = Inr PLAYING,
      seekTo_throws = False, playVideo_throws = False, pauseVideo_throws = False\<rparr>"

definition loaded :: "heap \<Rightarrow> jsval \<Rightarrow> player \<Rightarrow> component" where
  "loaded h tbl p =
     \<lparr>heap = h, hotcues = tbl, hotcuesRef = tbl, initialHotcuesRef = tbl,
      playerRef = Some p, isPlayerReady = True, isPlayerReadyRef = True,
      currentTime = Num 0, duration = 0, isSettingHotcue = None,
      triggeredHotcue = None, editingHotcue = None, editingLabel = JStr '''',
      isDragging = False, dragTime = Num 0, progressBarRef = None,
      isSaving = False, saveMessage = None, calls = []\<rparr>"

section \<open>Normalisation: the loop in closed form\<close>

lemma normalize_entry_total: "normalize_entry h v = Inr (entry_lit h v)"
  by (cases v) (auto simp: normalize_entry_def entry_lit_def and_then_def get_def)

lemma map_update_values:
  "map (\<lambda>(k, v). (k, f v)) (AList.update k e al) = AList.update k (f e) (map (\<lambda>(k, v). (k, f v)) al)"
  by (induction al) auto

lemma refs_below_mono: "refs_below n al \<Longrightarrow> n \<le> m \<Longrightarrow> refs_below m al"
  by (induction al) (auto simp: refs_below_def split: jsval.splits)

lemma refs_below_update:
  "refs_below n al \<Longrightarrow> e < n \<Longrightarrow> refs_below n (AList.update k (JRef e) al)"
  by (induction al) (auto simp: refs_below_def)

lemma read_refs_append:
  "refs_below (length h) al \<Longrightarrow>
   map (\<lambda>(k, v). (k, own_props (h @ ext) v)) al = map (\<lambda>(k, v). (k, own_props h v)) al"
  by (induction al) (auto simp: refs_below_def obj_at_def nth_append split: jsval.splits)

lemma normalize_loop_lits:
  assumes "x \<noteq> JUndefined" "x \<noteq> JNull" "refs_below (length h) acc"
  shows "\<exists>ext acc'. normalize_loop h0 x ks (h, acc) = Inr (h @ ext, acc') \<and>
           refs_below (length (h @ ext)) acc' \<and>
           map (\<lambda>(k, v). (k, own_props (h @ ext) v)) acc' =
             lit_loop h0 x ks (map (\<lambda>(k, v). (k, own_props h v)) acc)"
  using assms(3)
proof (induction ks arbitrary: h acc)
  case Nil
  then show ?case by (intro exI[of _ "[]"] exI[of _ acc]) simp
next
  case (Cons k ks)
  show ?case
  proof (cases "entry_lit h0 (get_prop h0 x k)")
    case None
    with Cons.IH[OF Cons.prems] assms(1,2) show ?thesis
      by (simp add: get_def and_then_def normalize_entry_total)
  next
    case (Some lit)
    let ?h = "h @ [lit]"
    let ?acc = "AList.update k (JRef (length h)) acc"
    have rb: "refs_below (length ?h) ?acc"
      using Cons.prems by (simp add: refs_below_update refs_below_mono)
    from Cons.IH[OF rb] obtain ext acc' where
      run: "normalize_loop h0 x ks (?h, ?acc) = Inr (?h @ ext, acc')"
      and rb': "refs_below (length (?h @ ext)) acc'"
      and rd: "map (\<lambda>(k, v). (k, own_props (?h @ ext) v)) acc' =
                 lit_loop h0 x ks (map (\<lambda>(k, v). (k, own_props ?h v)) ?acc)"
      by blast
    have "map (\<lambda>(k, v). (k, own_props ?h v)) ?acc =
            AList.update k lit (map (\<lambda>(k, v). (k, own_props h v)) acc)"
      using Cons.prems by (simp add: map_update_values read_refs_append obj_at_def)
    with run rb' rd Some assms(1,2) show ?thesis
      by (intro exI[of _ "lit # ext"] exI[of _ acc'])
         (simp add: get_def and_then_def normalize_entry_total alloc_def)
  qed
qed

lemma own_props_falsy: "\<not> truthy x \<Longrightarrow> own_props h x = []"
  by (cases x) auto

lemma normalizeHotcues_lits:
  "\<exists>ext tbl. normalizeHotcues h x = Inr (h @ ext @ [tbl], JRef (length (h @ ext))) \<and>
     refs_below (length (h @ ext)) tbl \<and>
     contents (h @ ext @ [tbl]) (JRef (length (h @ ext))) = norm_lits h x"
proof (cases "truthy x")
  case False
  then show ?thesis
    by (intro exI[of _ "[]"] exI[of _ "[]"])
       (simp add: normalizeHotcues_def alloc_def contents_def obj_at_def norm_lits_def
          own_props_falsy refs_below_def)
next
  case True
  then have nn: "x \<noteq> JUndefined" "x \<noteq> JNull" by auto
  have "refs_below (length h) []" by (simp add: refs_below_def)
  from normalize_loop_lits[OF nn this, of h "map fst (own_props h x)"]
  obtain ext acc' where
    run: "normalize_loop h x (map fst (own_props h x)) (h, []) = Inr (h @ ext, acc')"
    and rb: "refs_below (length (h @ ext)) acc'"
    and rd: "map (\<lambda>(k, v). (k, own_props (h @ ext) v)) acc' = norm_lits h x"
    by (auto simp: norm_lits_def)
  have "contents ((h @ ext) @ [acc']) (JRef (length (h @ ext))) = norm_lits h x"
    using rd read_refs_append[OF rb, of "[acc']"] by (simp add: contents_def obj_at_def)
  with run rb True nn show ?thesis
    by (intro exI[of _ ext] exI[of _ acc'])
       (simp add: normalizeHotcues_def object_keys_def and_then_def alloc_def)
qed



lemma distinct_lit_loop:
  "distinct (map fst acc) \<Longrightarrow> distinct (map fst (lit_loop h x ks acc))"
  by (induction ks arbitrary: acc) (auto simp: distinct_update split: option.splits)

lemma entry_lit_well_formed: "entry_lit h v = Some lit \<Longrightarrow> well_formed lit"
  by (auto simp: entry_lit_def js_or_def split: if_splits)

lemma list_all_update:
  "list_all (\<lambda>(k, c). P c) al \<Longrightarrow> P c \<Longrightarrow> list_all (\<lambda>(k, c). P c) (AList.update k c al)"
  by (induction al) auto

lemma well_formed_lit_loop:
  "list_all (\<lambda>(k, c). well_formed c) acc \<Longrightarrow>
   list_all (\<lambda>(k, c). well_formed c) (lit_loop h x ks acc)"
  by (induction ks arbitrary: acc)
     (auto simp: list_all_update entry_lit_well_formed split: option.splits)

lemma update_fresh: "k \<notin> fst ` set al \<Longrightarrow> AList.update k v al = al @ [(k, v)]"
  by (induction al) auto

lemma well_formedD:
  "well_formed c \<Longrightarrow>
   \<exists>t n. c = [(''time'', t), (''name'', n)] \<and> typeof t = ''number'' \<and> (truthy n \<or> n = JStr '''')"
  by (cases c rule: well_formed.cases) auto

lemma entry_lit_fixed:
  assumes "well_formed (own_props h (JRef e))"
  shows "entry_lit h (JRef e) = Some (own_props h (JRef e))"
proof -
  from well_formedD[OF assms] obtain t n where
    "own_props h (JRef e) = [(''time'', t), (''name'', n)]" "typeof t = ''number''"
    "truthy n \<or> n = JStr ''''"
    by blast
  then show ?thesis
    by (auto simp: entry_lit_def get_prop_def js_or_def)
qed

lemma map_fst_read: "map fst (map (\<lambda>(k, v). (k, f v)) al) = map fst al"
  by (induction al) auto

lemma list_all_read:
  "list_all (\<lambda>(k, c). P c) (map (\<lambda>(k, v). (k, f v)) al) = list_all (\<lambda>(k, v). P (f v)) al"
  by (induction al) auto

lemma lit_loop_fixed:
  assumes "own_props h r = P1 @ P2" "distinct (map fst (P1 @ P2))"
    "refs_below n (P1 @ P2)"
    "list_all (\<lambda>(k, v). well_formed (own_props h v)) (P1 @ P2)"
  shows "lit_loop h r (map fst P2) (map (\<lambda>(k, v). (k, own_props h v)) P1) =
           map (\<lambda>(k, v). (k, own_props h v)) (P1 @ P2)"
  using assms
proof (induction P2 arbitrary: P1)
  case Nil
  then show ?case by simp
next
  case (Cons p P2)
  obtain k v where p: "p = (k, v)" by (cases p)
  from Cons.prems(3) p obtain e where v: "v = JRef e"
    by (auto simp: refs_below_def split: jsval.splits)
  have "map_of (P1 @ (k, v) # P2) k = Some v"
    using Cons.prems(2) p by (intro map_of_is_SomeI) auto
  then have g: "get_prop h r k = v"
    using Cons.prems(1) p by (simp add: get_prop_def)
  have wf: "well_formed (own_props h (JRef e))"
    using Cons.prems(4) p v by simp
  have fresh: "k \<notin> fst ` set (map (\<lambda>(k, v). (k, own_props h v)) P1)"
    using Cons.prems(2) p by force
  have "lit_loop h r (map fst (p # P2)) (map (\<lambda>(k, v). (k, own_props h v)) P1) =
          lit_loop h r (map fst P2) (map (\<lambda>(k, v). (k, own_props h v)) (P1 @ [(k, v)]))"
    using p g v entry_lit_fixed[OF wf] update_fresh[OF fresh] by simp
  also have "\<dots> = map (\<lambda>(k, v). (k, own_props h v)) ((P1 @ [(k, v)]) @ P2)"
    using Cons.prems p by (intro Cons.IH) auto
  finally show ?case using p by simp
qed

lemma norm_lits_distinct: "distinct (map fst (norm_lits h x))"
  by (simp add: norm_lits_def distinct_lit_loop)

lemma norm_lits_well_formed: "list_all (\<lambda>(k, c). well_formed c) (norm_lits h x)"
  by (simp add: norm_lits_def well_formed_lit_loop)


section \<open>Claims about normalisation\<close>

text \<open>
  Claim C5. \<^verbatim>\<open>normalizeHotcues\<close> is idempotent: normalising the table it returns gives
  a table with the same keys, in the same order, and the same \<^verbatim>\<open>{time, name}\<close> entries
  as the first result. Both calls return; the second one runs in the store the first
  one left.
\<close>

theorem normalizeHotcues_idempotent:
  "\<exists>h1 r1 h2 r2. normalizeHotcues h x = Inr (h1, r1) \<and> normalizeHotcues h1 r1 = Inr (h2, r2) \<and>
     contents h2 r2 = contents h1 r1"
proof -
  from normalizeHotcues_lits[of h x] obtain ext tbl where
    n1: "normalizeHotcues h x = Inr (h @ ext @ [tbl], JRef (length (h @ ext)))"
    and rb: "refs_below (length (h @ ext)) tbl"
    and c1: "contents (h @ ext @ [tbl]) (JRef (length (h @ ext))) = norm_lits h x"
    by blast
  let ?h1 = "h @ ext @ [tbl]"
  let ?r1 = "JRef (length (h @ ext))"
  from normalizeHotcues_lits[of ?h1 ?r1] obtain h2 r2 where
    n2: "normalizeHotcues ?h1 ?r1 = Inr (h2, r2)"
    and c2: "contents h2 r2 = norm_lits ?h1 ?r1"
    by blast
  have op: "own_props ?h1 ?r1 = tbl"
    by (simp add: obj_at_def nth_append)
  have rd: "map (\<lambda>(k, v). (k, own_props ?h1 v)) tbl = norm_lits h x"
    using c1 op by (simp add: contents_def)
  have d: "distinct (map fst tbl)"
    using rd norm_lits_distinct[of h x] map_fst_read[of "own_props ?h1" tbl] by simp
  have w: "list_all (\<lambda>(k, v). well_formed (own_props ?h1 v)) tbl"
    using rd norm_lits_well_formed[of h x] list_all_read[of well_formed "own_props ?h1" tbl]
    by simp
  have "norm_lits ?h1 ?r1 = map (\<lambda>(k, v). (k, own_props ?h1 v)) tbl"
    using lit_loop_fixed[of ?h1 ?r1 "[]" tbl "length (h @ ext)"] op d rb w
    by (simp add: norm_lits_def)
  with n1 n2 c1 c2 rd show ?thesis by simp
qed

text \<open>
  The claim at the table \<^verbatim>\<open>{q: 12.5, w: {time: 3, name: 'intro'}, e: 'bad'}\<close>: the second
  normalisation yields \<^verbatim>\<open>{q: {time: 12.5, name: ''}, w: {time: 3, name: 'intro'}}\<close> again.
\<close>

theorem normalizeHotcues_idempotent_witness:
  "\<exists>h1 r1 h2 r2.
     normalizeHotcues
       [[(''q'', JNum (Num 12.5)), (''w'', JRef 1), (''e'', JStr ''bad'')],
        [(''time'', JNum (Num 3)), (''name'', JStr ''intro'')]] (JRef 0) = Inr (h1, r1) \<and>
     normalizeHotcues h1 r1 = Inr (h2, r2) \<and>
     contents h2 r2 = contents h1 r1 \<and>
     contents h1 r1 =
       [(''q'', [(''time'', JNum (Num 12.5)), (''name'', JStr '''')]),
        (''w'', [(''time'', JNum (Num 3)), (''name'', JStr ''intro'')])]"
  using normalizeHotcues_idempotent
    [of "[[(''q'', JNum (Num 12.5)), (''w'', JRef 1), (''e'', JStr ''bad'')],
          [(''time'', JNum (Num 3)), (''name'', JStr ''intro'')]]" "JRef 0"]
  by (auto simp: normalizeHotcues_def object_keys_def and_then_def get_def get_prop_def
        obj_at_def normalize_entry_def alloc_def js_or_def contents_def)



section \<open>Claims about the progress bar\<close>

lemma calculateSeekTime_cong:
  "progressBarRef s' = progressBarRef s \<Longrightarrow> duration s' = duration s \<Longrightarrow>
   calculateSeekTime s' x = calculateSeekTime s x"
  by (simp add: calculateSeekTime_def Let_def split: option.splits)

lemma calculateSeekTime_fraction:
  assumes "progressBarRef s = Some r" "rect_width r \<noteq> 0" "duration s \<noteq> 0"
  shows "calculateSeekTime s x =
           Num (max 0 (min 1 ((x - rect_left r) / rect_width r)) * duration s)"
  using assms by (simp add: calculateSeekTime_def Let_def)

lemma moves_same_session:
  "isDragging s \<Longrightarrow> same_session s (pointer_run s (map MouseMove xs))"
proof (induction xs arbitrary: s)
  case Nil
  then show ?case by (simp add: pointer_run_def same_session_def)
next
  case (Cons x xs)
  let ?s1 = "handleProgressBarMouseMove s x"
  have s1: "same_session s ?s1"
    by (simp add: handleProgressBarMouseMove_def same_session_def)
  with Cons.prems have "isDragging ?s1" by (simp add: same_session_def)
  from Cons.IH[OF this] s1 Cons.prems show ?case
    by (simp add: pointer_run_def same_session_def)
qed

lemma pointer_run_append: "pointer_run s (xs @ ys) = pointer_run (pointer_run s xs) ys"
  by (simp add: pointer_run_def)

lemma pointer_run_Cons: "pointer_run s (x # xs) = pointer_run (pointer_step s x) xs"
  by (simp add: pointer_run_def)

lemma seek_now_calls: "calls (seek_now s p t) = calls s @ [SeekTo (JNum t) True]"
  by (simp add: seek_now_def Let_def)

text \<open>
  A drag: mouse down, any number of moves, mouse up. No call is made before the
  release, and the release makes one \<^verbatim>\<open>seekTo\<close>, at the time computed from the pointer
  position of the release; dragging has ended.
\<close>

lemma drag_seeks_once_at_release:
  assumes "playerRef s = Some p" "isPlayerReady s" "duration s \<noteq> 0"
  shows "calls (pointer_run s (MouseDown x0 # map MouseMove xs)) = calls s"
    and "calls (pointer_run s (MouseDown x0 # map MouseMove xs @ [MouseUp x])) =
           calls s @ [SeekTo (JNum (calculateSeekTime s x)) True]"
    and "\<not> isDragging (pointer_run s (MouseDown x0 # map MouseMove xs @ [MouseUp x]))"
proof -
  let ?s1 = "handleProgressBarMouseDown s x0"
  let ?s2 = "pointer_run ?s1 (map MouseMove xs)"
  have s1: "isDragging ?s1" "calls ?s1 = calls s" "playerRef ?s1 = Some p" "isPlayerReady ?s1"
    "duration ?s1 = duration s" "progressBarRef ?s1 = progressBarRef s"
    using assms by (simp_all add: handleProgressBarMouseDown_def)
  from moves_same_session[OF s1(1), of xs] have "same_session ?s1 ?s2" .
  then have s2: "calls ?s2 = calls s" "playerRef ?s2 = Some p" "isPlayerReady ?s2" "isDragging ?s2"
    "duration ?s2 = duration s" "progressBarRef ?s2 = progressBarRef s"
    by (simp_all add: same_session_def s1)
  show "calls (pointer_run s (MouseDown x0 # map MouseMove xs)) = calls s"
    using s2(1) by (simp add: pointer_run_Cons)
  have cst: "calculateSeekTime ?s2 x = calculateSeekTime s x"
    by (rule calculateSeekTime_cong[OF s2(6) s2(5)])
  have up: "pointer_run s (MouseDown x0 # map MouseMove xs @ [MouseUp x]) =
              seek_now (?s2\<lparr>isDragging := False, dragTime := Num 0\<rparr>) p (calculateSeekTime s x)"
    using s2 cst
    by (simp add: pointer_run_Cons pointer_run_append handleProgressBarMouseUp_def)
       (simp add: pointer_run_def)
  show "calls (pointer_run s (MouseDown x0 # map MouseMove xs @ [MouseUp x])) =
           calls s @ [SeekTo (JNum (calculateSeekTime s x)) True]"
    unfolding up using s2(1) by (simp add: seek_now_calls)
  show "\<not> isDragging (pointer_run s (MouseDown x0 # map MouseMove xs @ [MouseUp x]))"
    unfolding up by (simp add: seek_now_def Let_def)
qed

text \<open>A click event alone, outside a drag, makes one \<^verbatim>\<open>seekTo\<close> at the clicked position.\<close>

lemma click_seeks_once:
  assumes "playerRef s = Some p" "isPlayerReady s" "duration s \<noteq> 0" "\<not> isDragging s"
  shows "calls (pointer_run s [Click x]) = calls s @ [SeekTo (JNum (calculateSeekTime s x)) True]"
  using assms by (simp add: pointer_run_def handleProgressBarClick_def seek_now_calls)

text \<open>
  A press and release over the track: the release seeks and ends the drag, so the click
  that follows finds \<^verbatim>\<open>isDragging\<close> false and seeks again.
\<close>

lemma press_release_click_seeks_twice:
  assumes "playerRef s = Some p" "isPlayerReady s" "duration s \<noteq> 0"
  shows "calls (pointer_run s [MouseDown x, MouseUp x, Click x]) =
           calls s @ [SeekTo (JNum (calculateSeekTime s x)) True,
                      SeekTo (JNum (calculateSeekTime s x)) True]"
proof -
  let ?s3 = "pointer_run s [MouseDown x, MouseUp x]"
  have a: "calls ?s3 = calls s @ [SeekTo (JNum (calculateSeekTime s x)) True]"
    and b: "\<not> isDragging ?s3"
    using drag_seeks_once_at_release(2,3)[OF assms, of x "[]" x] by simp_all
  have c: "playerRef ?s3 = Some p" "isPlayerReady ?s3" "duration ?s3 = duration s"
    "progressBarRef ?s3 = progressBarRef s"
    using assms
    by (simp_all add: pointer_run_def handleProgressBarMouseDown_def
          handleProgressBarMouseUp_def seek_now_def Let_def)
  have "pointer_run s [MouseDown x, MouseUp x, Click x] = pointer_run ?s3 [Click x]"
    by (simp add: pointer_run_def)
  with click_seeks_once[OF c(1,2) _ b, of x] c(3) assms(3) a
    calculateSeekTime_cong[OF c(4) c(3), of x]
  show ?thesis by simp
qed


section \<open>Tables in a growing store\<close>

lemma table_at_own_props_append:
  "table_at h v \<Longrightarrow> own_props (h @ ext) v = own_props h v"
  by (cases v) (auto simp: table_at_def obj_at_def nth_append)

lemma table_at_refs: "table_at h v \<Longrightarrow> refs_below (length h) (own_props h v)"
  by (cases v) (auto simp: table_at_def)

lemma table_at_contents_append:
  assumes "table_at h v"
  shows "contents (h @ ext) v = contents h v"
  using read_refs_append[OF table_at_refs[OF assms], of ext]
  by (simp add: contents_def table_at_own_props_append[OF assms])

lemma table_at_append: "table_at h v \<Longrightarrow> table_at (h @ ext) v"
  by (cases v) (auto simp: table_at_def obj_at_def nth_append intro: refs_below_mono)

lemma table_at_new:
  "refs_below (length h) al \<Longrightarrow> table_at (h @ [al]) (JRef (length h))"
  by (auto simp: table_at_def obj_at_def intro: refs_below_mono)

lemma contents_new:
  "refs_below (length h) al \<Longrightarrow>
   contents (h @ [al]) (JRef (length h)) = map (\<lambda>(k, v). (k, own_props h v)) al"
  using read_refs_append[of h al "[al]"] by (simp add: contents_def obj_at_def)

lemma refs_below_delete: "refs_below n al \<Longrightarrow> refs_below n (AList.delete k al)"
  by (induction al) (auto simp: refs_below_def)

lemma map_delete_values:
  "map (\<lambda>(k, v). (k, f v)) (AList.delete k al) = AList.delete k (map (\<lambda>(k, v). (k, f v)) al)"
  by (induction al) auto


lemma table_at_not_nullish: "table_at h v \<Longrightarrow> v \<noteq> JUndefined \<and> v \<noteq> JNull"
  by (auto simp: table_at_def)

section \<open>The keyboard dispatcher\<close>

lemma handleKeyPress_text_field:
  "tagName e = ''INPUT'' \<or> tagName e = ''TEXTAREA'' \<Longrightarrow> handleKeyPress s e = Inr s"
  by (simp add: handleKeyPress_def)

lemma handleKeyPress_set:
  assumes "tagName e \<noteq> ''INPUT''" "tagName e \<noteq> ''TEXTAREA''"
    and "toLowerCase (key e) = k" "k \<in> set LETTER_KEYS"
    and "playerRef s = Some p" "isPlayerReadyRef s"
    and "hotcuesRef s \<noteq> JUndefined" "hotcuesRef s \<noteq> JNull"
    and "get_prop (heap s) (hotcuesRef s) k = JUndefined"
  shows "handleKeyPress s e = Inr (set_at_current_time s p k)"
  using assms by (simp add: handleKeyPress_def Let_def get_def and_then_def)



lemma set_at_current_time_valid:
  assumes "getCurrentTime p = Inr (JNum (Num t))"
  shows "set_at_current_time s p k =
           s\<lparr>calls := calls s @ [GetCurrentTime],
             heap := heap s @ [[(''time'', JNum (Num t)), (''name'', JStr '''')],
                               AList.update k (JRef (length (heap s)))
                                 (own_props (heap s) (hotcuesRef s))],
             hotcues := JRef (Suc (length (heap s))),
             hotcuesRef := JRef (Suc (length (heap s))),
             triggeredHotcue := Some k\<rparr>"
  using assms by (simp add: set_at_current_time_def Let_def alloc_def isNaN_def)

lemma set_at_current_time_invalid:
  assumes "\<And>t. getCurrentTime p \<noteq> Inr (JNum (Num t))"
  shows "heap (set_at_current_time s p k) = heap s \<and>
         hotcuesRef (set_at_current_time s p k) = hotcuesRef s \<and>
         hotcues (set_at_current_time s p k) = hotcues s"
proof (cases "getCurrentTime p")
  case (Inl err)
  then show ?thesis by (simp add: set_at_current_time_def Let_def)
next
  case (Inr now)
  with assms have "(typeof now = ''number'' \<and> \<not> isNaN now) = False"
    by (cases now rule: truthy.cases) (auto simp: isNaN_def)
  with Inr show ?thesis by (simp add: set_at_current_time_def Let_def del: de_Morgan_conj)
qed

lemma set_at_current_time_contents:
  assumes "getCurrentTime p = Inr (JNum (Num t))" "table_at (heap s) (hotcuesRef s)"
  shows "contents (heap (set_at_current_time s p k)) (hotcuesRef (set_at_current_time s p k)) =
           AList.update k [(''time'', JNum (Num t)), (''name'', JStr '''')]
             (contents (heap s) (hotcuesRef s))"
proof -
  let ?h = "heap s"
  let ?lit = "[(''time'', JNum (Num t)), (''name'', JStr '''')]"
  let ?h1 = "?h @ [?lit]"
  let ?tbl = "AList.update k (JRef (length ?h)) (own_props ?h (hotcuesRef s))"
  have rb: "refs_below (length ?h1) ?tbl"
    using table_at_refs[OF assms(2)] by (simp add: refs_below_update refs_below_mono)
  have "contents (?h1 @ [?tbl]) (JRef (length ?h1)) =
          map (\<lambda>(k, v). (k, own_props ?h1 v)) ?tbl"
    using contents_new[OF rb] .
  also have "\<dots> = AList.update k ?lit
                      (map (\<lambda>(k, v). (k, own_props ?h1 v)) (own_props ?h (hotcuesRef s)))"
    by (simp add: map_update_values obj_at_def)
  also have "map (\<lambda>(k, v). (k, own_props ?h1 v)) (own_props ?h (hotcuesRef s)) =
               contents ?h (hotcuesRef s)"
    using read_refs_append[OF table_at_refs[OF assms(2)], of "[?lit]"]
    by (simp add: contents_def)
  finally show ?thesis
    by (simp add: set_at_current_time_valid[OF assms(1)])
qed

text \<open>
  Loading a video always succeeds and leaves the live table and the snapshot as tables
  of the store; after the next render the \<^verbatim>\<open>hotcues\<close> state and its ref are the same
  object.
\<close>

lemma loadInitialHotcues_tables:
  "\<exists>s'. loadInitialHotcues s x = Inr s' \<and> table_at (heap s') (hotcuesRef s') \<and>
        table_at (heap s') (initialHotcuesRef s') \<and> table_at (heap s') (hotcues s')"
proof (cases "truthy x")
  case True
  from normalizeHotcues_lits[of "heap s" x] obtain ext tbl where
    n: "normalizeHotcues (heap s) x = Inr (heap s @ ext @ [tbl], JRef (length (heap s @ ext)))"
    and rb: "refs_below (length (heap s @ ext)) tbl"
    by blast
  from table_at_new[OF rb] n True show ?thesis
    by (simp add: loadInitialHotcues_def and_then_def)
next
  case False
  then show ?thesis
    by (simp add: loadInitialHotcues_def alloc_def table_at_def obj_at_def refs_below_def
          nth_append)
qed

lemma sync_refs_mirror: "hotcues (sync_refs s) = hotcuesRef (sync_refs s)"
  by (simp add: sync_refs_def)


lemma jump_to_tables:
  "heap (jump_to s p k t) = heap s \<and> hotcues (jump_to s p k t) = hotcues s \<and>
   hotcuesRef (jump_to s p k t) = hotcuesRef s \<and>
   initialHotcuesRef (jump_to s p k t) = initialHotcuesRef s"
  by (simp add: jump_to_def Let_def)

section \<open>Claims about the keyboard dispatcher\<close>







lemma handleKeyPress_space:
  assumes "tagName e \<noteq> ''INPUT''" "tagName e \<noteq> ''TEXTAREA''"
    and "code e = ''Space''" "toLowerCase (key e) \<notin> set LETTER_KEYS"
    and "playerRef s = Some p" "isPlayerReadyRef s"
  shows "\<exists>s'. handleKeyPress s e = Inr s' \<and>
           calls s' =
             calls s @ GetPlayerState #
             (case getPlayerState p of
                Inl err \<Rightarrow> []
              | Inr state \<Rightarrow> if strict_eq state PLAYING then [PauseVideo] else [PlayVideo])"
  using assms
  by (auto simp: handleKeyPress_def Let_def toggle_playback_def split: sum.splits)

lemma handleKeyPress_letter_k_ready:
  assumes "tagName e \<noteq> ''INPUT''" "tagName e \<noteq> ''TEXTAREA''"
    and "toLowerCase (key e) = ''k''" "playerRef s = Some p" "isPlayerReadyRef s"
    and "handleKeyPress s e = Inr s'"
  shows "s' = set_at_current_time s p ''k'' \<or> (\<exists>t. s' = jump_to s p ''k'' t)"
  using assms
  by (auto simp: handleKeyPress_def Let_def LETTER_KEYS_def and_then_def
        split: sum.splits if_splits)


section \<open>Claims about single-key edits\<close>

lemma clearHotcue_contents:
  assumes "table_at (heap s) (hotcues s)"
  shows "contents (heap (clearHotcue s k)) (hotcuesRef (clearHotcue s k)) =
           AList.delete k (contents (heap s) (hotcues s)) \<and>
         hotcues (clearHotcue s k) = hotcuesRef (clearHotcue s k) \<and>
         own_props (heap (clearHotcue s k)) (hotcuesRef (clearHotcue s k)) =
           AList.delete k (own_props (heap s) (hotcues s))"
proof -
  let ?tbl = "AList.delete k (own_props (heap s) (hotcues s))"
  have rb: "refs_below (length (heap s)) ?tbl"
    using table_at_refs[OF assms] by (rule refs_below_delete)
  have "contents (heap s @ [?tbl]) (JRef (length (heap s))) =
          AList.delete k (contents (heap s) (hotcues s))"
    using contents_new[OF rb] by (simp add: map_delete_values contents_def)
  then show ?thesis
    by (simp add: clearHotcue_def alloc_def obj_at_def)
qed

lemma set_at_current_time_own_props:
  assumes "getCurrentTime p = Inr (JNum (Num t))"
  shows "own_props (heap (set_at_current_time s p k)) (hotcuesRef (set_at_current_time s p k)) =
           AList.update k (JRef (length (heap s))) (own_props (heap s) (hotcuesRef s))"
  by (simp add: set_at_current_time_valid[OF assms] obj_at_def nth_append)

text \<open>
  Claim C10. In a state whose live table is a table of the store, mirrored by the
  \<^verbatim>\<open>hotcues\<close> state as after every render: a key press that sets a hotcue for \<open>k\<close> leaves
  every other key \<open>k'\<close> with the entry object it had and with the same time and name;
  \<^verbatim>\<open>clearHotcue(kc)\<close> leaves every other key with its entry, leaves no entry under
  \<open>kc\<close>, and when \<open>kc\<close> had no entry the new table has exactly the old contents.
\<close>

theorem single_key_edit_frame:
  assumes "table_at (heap s) (hotcuesRef s)" "hotcues s = hotcuesRef s"
  shows "(tagName e \<noteq> ''INPUT'' \<and> tagName e \<noteq> ''TEXTAREA'' \<and> toLowerCase (key e) = k \<and>
          k \<in> set LETTER_KEYS \<and> playerRef s = Some p \<and> isPlayerReadyRef s \<and>
          get_prop (heap s) (hotcuesRef s) k = JUndefined \<and>
          getCurrentTime p = Inr (JNum (Num t)) \<longrightarrow>
            (\<exists>s'. handleKeyPress s e = Inr s' \<and>
               (\<forall>k'. k' \<noteq> k \<longrightarrow>
                  map_of (own_props (heap s') (hotcuesRef s')) k' =
                    map_of (own_props (heap s) (hotcuesRef s)) k' \<and>
                  map_of (contents (heap s') (hotcuesRef s')) k' =
                    map_of (contents (heap s) (hotcuesRef s)) k'))) \<and>
         (\<forall>k'. k' \<noteq> kc \<longrightarrow>
            map_of (own_props (heap (clearHotcue s kc)) (hotcuesRef (clearHotcue s kc))) k' =
              map_of (own_props (heap s) (hotcuesRef s)) k' \<and>
            map_of (contents (heap (clearHotcue s kc)) (hotcuesRef (clearHotcue s kc))) k' =
              map_of (contents (heap s) (hotcuesRef s)) k') \<and>
         map_of (contents (heap (clearHotcue s kc)) (hotcuesRef (clearHotcue s kc))) kc = None \<and>
         (map_of (contents (heap s) (hotcuesRef s)) kc = None \<longrightarrow>
            contents (heap (clearHotcue s kc)) (hotcuesRef (clearHotcue s kc)) =
              contents (heap s) (hotcuesRef s))"
proof -
  have set_part: "\<exists>s'. handleKeyPress s e = Inr s' \<and>
      (\<forall>k'. k' \<noteq> k \<longrightarrow>
         map_of (own_props (heap s') (hotcuesRef s')) k' =
           map_of (own_props (heap s) (hotcuesRef s)) k' \<and>
         map_of (contents (heap s') (hotcuesRef s')) k' =
           map_of (contents (heap s) (hotcuesRef s)) k')"
    if g: "tagName e \<noteq> ''INPUT''" "tagName e \<noteq> ''TEXTAREA''" "toLowerCase (key e) = k"
      "k \<in> set LETTER_KEYS" "playerRef s = Some p" "isPlayerReadyRef s"
      "get_prop (heap s) (hotcuesRef s) k = JUndefined"
      and v: "getCurrentTime p = Inr (JNum (Num t))"
  proof -
    have run: "handleKeyPress s e = Inr (set_at_current_time s p k)"
      using g table_at_not_nullish[OF assms(1)] by (intro handleKeyPress_set) auto
    show ?thesis
      using run set_at_current_time_own_props[OF v, of s k]
        set_at_current_time_contents[OF v assms(1), of k]
      by (simp add: update_conv')
  qed
  have c: "contents (heap (clearHotcue s kc)) (hotcuesRef (clearHotcue s kc)) =
             AList.delete kc (contents (heap s) (hotcuesRef s))"
    and o: "own_props (heap (clearHotcue s kc)) (hotcuesRef (clearHotcue s kc)) =
             AList.delete kc (own_props (heap s) (hotcuesRef s))"
    using clearHotcue_contents[of s kc] assms by simp_all
  have "map_of (contents (heap s) (hotcuesRef s)) kc = None \<longrightarrow>
          AList.delete kc (contents (heap s) (hotcuesRef s)) = contents (heap s) (hotcuesRef s)"
    by (simp add: map_of_eq_None_iff)
  with set_part c o show ?thesis
    by (simp add: delete_conv')
qed

text \<open>
  The claim on the table \<^verbatim>\<open>{q: {time: 12.5, name: ''}}\<close> with the player at 7.25: setting
  \<^verbatim>\<open>w\<close> keeps \<^verbatim>\<open>q\<close>, clearing \<^verbatim>\<open>q\<close> removes it, and clearing the unset \<^verbatim>\<open>z\<close> changes
  nothing.
\<close>

theorem single_key_edit_frame_witness:
  "(\<exists>s'. handleKeyPress
             (loaded [[(''q'', JRef 1)], [(''time'', JNum (Num 12.5)), (''name'', JStr '''')]]
                (JRef 0) (playing_at 7.25))
             \<lparr>tagName = ''BODY'', key = ''w'', code = ''KeyW''\<rparr> = Inr s' \<and>
          map_of (contents (heap s') (hotcuesRef s')) ''q'' =
            Some [(''time'', JNum (Num 12.5)), (''name'', JStr '''')]) \<and>
   map_of (contents
       (heap (clearHotcue
          (loaded [[(''q'', JRef 1)], [(''time'', JNum (Num 12.5)), (''name'', JStr '''')]]
             (JRef 0) (playing_at 7.25)) ''z''))
       (hotcuesRef (clearHotcue
          (loaded [[(''q'', JRef 1)], [(''time'', JNum (Num 12.5)), (''name'', JStr '''')]]
             (JRef 0) (playing_at 7.25)) ''z''))) ''q'' =
     Some [(''time'', JNum (Num 12.5)), (''name'', JStr '''')] \<and>
   map_of (contents
       (heap (clearHotcue
          (loaded [[(''q'', JRef 1)], [(''time'', JNum (Num 12.5)), (''name'', JStr '''')]]
             (JRef 0) (playing_at 7.25)) ''z''))
       (hotcuesRef (clearHotcue
          (loaded [[(''q'', JRef 1)], [(''time'', JNum (Num 12.5)), (''name'', JStr '''')]]
             (JRef 0) (playing_at 7.25)) ''z''))) ''z'' = None"
proof -
  let ?h = "[[(''q'', JRef 1)], [(''time'', JNum (Num 12.5)), (''name'', JStr '''')]]"
  let ?s = "loaded ?h (JRef 0) (playing_at 7.25)"
  let ?e = "\<lparr>tagName = ''BODY'', key = ''w'', code = ''KeyW''\<rparr>"
  have a: "table_at (heap ?s) (hotcuesRef ?s)" "hotcues ?s = hotcuesRef ?s"
    by (simp_all add: loaded_def table_at_def refs_below_def obj_at_def)
  have g: "tagName ?e \<noteq> ''INPUT'' \<and> tagName ?e \<noteq> ''TEXTAREA'' \<and> toLowerCase (key ?e) = ''w'' \<and>
          ''w'' \<in> set LETTER_KEYS \<and> playerRef ?s = Some (playing_at 7.25) \<and> isPlayerReadyRef ?s \<and>
          get_prop (heap ?s) (hotcuesRef ?s) ''w'' = JUndefined \<and>
          getCurrentTime (playing_at 7.25) = Inr (JNum (Num 7.25))"
    by (simp add: toLowerCase_def LETTER_KEYS_def loaded_def playing_at_def obj_at_def
          get_prop_def)
  have q: "map_of (contents (heap ?s) (hotcuesRef ?s)) ''q'' =
             Some [(''time'', JNum (Num 12.5)), (''name'', JStr '''')]"
    by (simp add: loaded_def contents_def obj_at_def)
  from single_key_edit_frame[OF a, of ?e "''w''" "playing_at 7.25" "7.25" "''z''"] g q
  show ?thesis
    by auto
qed

section \<open>The dirty check on valid tables\<close>




















section \<open>Valid tables under the edits\<close>


















section \<open>Claims about unsaved changes\<close>




section \<open>Claims about a failed save\<close>

lemma sublist_inside: "sublist xs ys \<Longrightarrow> sublist xs (ps @ ys @ ss)"
proof -
  assume "sublist xs ys"
  then obtain a b where "ys = a @ xs @ b" by (auto simp: sublist_def)
  then have "ps @ ys @ ss = (ps @ a) @ xs @ (b @ ss)" by simp
  then show ?thesis unfolding sublist_def by blast
qed

lemma sublist_join: "f \<in> set fs \<Longrightarrow> sublist f (join sep fs)"
proof (induction sep fs rule: join.induct)
  case (1 sep)
  then show ?case by simp
next
  case (2 sep x)
  then show ?case by simp
next
  case (3 sep x y ys)
  show ?case
  proof (cases "f = x")
    case True
    then show ?thesis by simp
  next
    case False
    with 3 have "sublist f (join sep (y # ys))" by simp
    from sublist_inside[OF this, of "x @ sep" "[]"] show ?thesis by simp
  qed
qed

lemma handleSave_failed:
  assumes "save_refused ps \<noteq> None \<or> out = Rejected err"
  shows "initialHotcuesRef (handleSave s ps out) = initialHotcuesRef s"
    "heap (handleSave s ps out) = heap s"
    "hotcuesRef (handleSave s ps out) = hotcuesRef s"
    "hotcues (handleSave s ps out) = hotcues s"
    "\<exists>m. saveMessage (handleSave s ps out) = Some m \<and> msg_type m = ''error'' \<and>
         (save_refused ps = None \<longrightarrow> msg_text m = errorMessage err)"
  using assms
  by (auto simp: handleSave_def save_settled_def save_refused_def split: if_splits)

lemma errorMessage_response:
  assumes "err_code err \<noteq> Some ''ECONNREFUSED''" "err_code err \<noteq> Some ''ERR_NETWORK''"
    "err_code err \<noteq> Some ''ECONNABORTED''" "\<not> str_includes (err_message err) ''timeout''"
    "err_response err = Some resp"
  shows "errorMessage err =
           ''Failed to save video. '' @
           or_else (err_error (resp_data resp))
             (or_else (err_details (resp_data resp)) (resp_statusText resp)) @
           (case err_missingFields (resp_data resp) of
              None \<Rightarrow> ''''
            | Some missing \<Rightarrow> '' Missing: '' @ join '', '' missing) @
           (case err_type (resp_data resp) of
              None \<Rightarrow> ''''
            | Some t \<Rightarrow> if t = '''' then '''' else '' ('' @ t @ '')'')"
  using assms by (simp add: errorMessage_def Let_def)

lemma errorMessage_has_error:
  assumes "err_code err \<noteq> Some ''ECONNREFUSED''" "err_code err \<noteq> Some ''ERR_NETWORK''"
    "err_code err \<noteq> Some ''ECONNABORTED''" "\<not> str_includes (err_message err) ''timeout''"
    "err_response err = Some resp" "err_error (resp_data resp) = Some e"
  shows "str_includes (errorMessage err) e"
proof (cases "e = ''''")
  case True
  then show ?thesis by (simp add: str_includes_def)
next
  case False
  let ?rest = "(case err_missingFields (resp_data resp) of
              None \<Rightarrow> ''''
            | Some missing \<Rightarrow> '' Missing: '' @ join '', '' missing) @
           (case err_type (resp_data resp) of
              None \<Rightarrow> ''''
            | Some t \<Rightarrow> if t = '''' then '''' else '' ('' @ t @ '')'')"
  have "errorMessage err = ''Failed to save video. '' @ e @ ?rest"
    using errorMessage_response[OF assms(1-5)] assms(6) False by (simp add: or_else_def)
  then show ?thesis
    unfolding str_includes_def by (simp only: sublist_appendI)
qed

lemma errorMessage_has_fields:
  assumes "err_code err \<noteq> Some ''ECONNREFUSED''" "err_code err \<noteq> Some ''ERR_NETWORK''"
    "err_code err \<noteq> Some ''ECONNABORTED''" "\<not> str_includes (err_message err) ''timeout''"
    "err_response err = Some resp" "err_missingFields (resp_data resp) = Some fs" "f \<in> set fs"
  shows "str_includes (errorMessage err) f"
proof -
  let ?head = "''Failed to save video. '' @
           or_else (err_error (resp_data resp))
             (or_else (err_details (resp_data resp)) (resp_statusText resp)) @ '' Missing: ''"
  let ?tail = "(case err_type (resp_data resp) of
              None \<Rightarrow> ''''
            | Some t \<Rightarrow> if t = '''' then '''' else '' ('' @ t @ '')'')"
  have "errorMessage err = ?head @ join '', '' fs @ ?tail"
    using errorMessage_response[OF assms(1-5)] assms(6) by simp
  moreover have "sublist f (?head @ join '', '' fs @ ?tail)"
    by (rule sublist_inside[OF sublist_join[OF assms(7)]])
  ultimately show ?thesis by (simp only: str_includes_def)
qed

text \<open>
  Claim C4. A save fails when \<^verbatim>\<open>handleSave\<close> refuses to send the request (missing URL or
  video id, nobody logged in) or when the request is rejected. In both cases the
  snapshot, the store and the live table are exactly as before, and an error message
  is produced. For a rejected request its text tells the classes apart: a fixed text
  for codes \<^verbatim>\<open>ECONNREFUSED\<close> and \<^verbatim>\<open>ERR_NETWORK\<close>; otherwise another fixed text for code
  \<^verbatim>\<open>ECONNABORTED\<close> or a message containing \<^verbatim>\<open>timeout\<close>; otherwise, when the server
  responded, the server's error text (or details, or status text) followed by the
  missing fields and the type, so that the text contains the error text and every
  missing field name; otherwise the message of the error, or a fixed fallback.
\<close>

theorem failed_save_keeps_snapshot:
  assumes "save_refused ps \<noteq> None \<or> out = Rejected err"
  shows "initialHotcuesRef (handleSave s ps out) = initialHotcuesRef s \<and>
         heap (handleSave s ps out) = heap s \<and>
         hotcuesRef (handleSave s ps out) = hotcuesRef s \<and>
         (\<exists>m. saveMessage (handleSave s ps out) = Some m \<and> msg_type m = ''error'' \<and>
              (save_refused ps = None \<longrightarrow> msg_text m = errorMessage err)) \<and>
         (err_code err = Some ''ECONNREFUSED'' \<or> err_code err = Some ''ERR_NETWORK'' \<longrightarrow>
            errorMessage err =
              ''Failed to save video. Cannot connect to backend server. Is it running on port 3001?'') \<and>
         (err_code err \<noteq> Some ''ECONNREFUSED'' \<and> err_code err \<noteq> Some ''ERR_NETWORK'' \<and>
          (err_code err = Some ''ECONNABORTED'' \<or> str_includes (err_message err) ''timeout'') \<longrightarrow>
            errorMessage err = ''Failed to save video. Request timed out. Please try again.'') \<and>
         (err_code err \<noteq> Some ''ECONNREFUSED'' \<and> err_code err \<noteq> Some ''ERR_NETWORK'' \<and>
          err_code err \<noteq> Some ''ECONNABORTED'' \<and> \<not> str_includes (err_message err) ''timeout'' \<longrightarrow>
            (\<forall>resp. err_response err = Some resp \<longrightarrow>
               errorMessage err =
                 ''Failed to save video. '' @
                 or_else (err_error (resp_data resp))
                   (or_else (err_details (resp_data resp)) (resp_statusText resp)) @
                 (case err_missingFields (resp_data resp) of
                    None \<Rightarrow> ''''
                  | Some missing \<Rightarrow> '' Missing: '' @ join '', '' missing) @
                 (case err_type (resp_data resp) of
                    None \<Rightarrow> ''''
                  | Some t \<Rightarrow> if t = '''' then '''' else '' ('' @ t @ '')'') \<and>
               (\<forall>e. err_error (resp_data resp) = Some e \<longrightarrow> str_includes (errorMessage err) e) \<and>
               (\<forall>fs. err_missingFields (resp_data resp) = Some fs \<longrightarrow>
                  (\<forall>f \<in> set fs. str_includes (errorMessage err) f))) \<and>
            (err_response err = None \<longrightarrow>
               errorMessage err =
                 ''Failed to save video. '' @
                 or_else (Some (err_message err)) ''Unknown error occurred.''))"
proof -
  have "err_code err = Some ''ECONNREFUSED'' \<or> err_code err = Some ''ERR_NETWORK'' \<longrightarrow>
          errorMessage err =
            ''Failed to save video. Cannot connect to backend server. Is it running on port 3001?''"
    by (auto simp: errorMessage_def)
  moreover have "err_code err \<noteq> Some ''ECONNREFUSED'' \<and> err_code err \<noteq> Some ''ERR_NETWORK'' \<and>
          (err_code err = Some ''ECONNABORTED'' \<or> str_includes (err_message err) ''timeout'') \<longrightarrow>
            errorMessage err = ''Failed to save video. Request timed out. Please try again.''"
    by (auto simp: errorMessage_def)
  moreover have "err_code err \<noteq> Some ''ECONNREFUSED'' \<and> err_code err \<noteq> Some ''ERR_NETWORK'' \<and>
          err_code err \<noteq> Some ''ECONNABORTED'' \<and> \<not> str_includes (err_message err) ''timeout'' \<longrightarrow>
            (\<forall>resp. err_response err = Some resp \<longrightarrow>
               errorMessage err =
                 ''Failed to save video. '' @
                 or_else (err_error (resp_data resp))
                   (or_else (err_details (resp_data resp)) (resp_statusText resp)) @
                 (case err_missingFields (resp_data resp) of
                    None \<Rightarrow> ''''
                  | Some missing \<Rightarrow> '' Missing: '' @ join '', '' missing) @
                 (case err_type (resp_data resp) of
                    None \<Rightarrow> ''''
                  | Some t \<Rightarrow> if t = '''' then '''' else '' ('' @ t @ '')'') \<and>
               (\<forall>e. err_error (resp_data resp) = Some e \<longrightarrow> str_includes (errorMessage err) e) \<and>
               (\<forall>fs. err_missingFields (resp_data resp) = Some fs \<longrightarrow>
                  (\<forall>f \<in> set fs. str_includes (errorMessage err) f))) \<and>
            (err_response err = None \<longrightarrow>
               errorMessage err =
                 ''Failed to save video. '' @
                 or_else (Some (err_message err)) ''Unknown error occurred.'')"
    using errorMessage_response[of err] errorMessage_has_error[of err]
      errorMessage_has_fields[of err]
    by (auto simp: errorMessage_def)
  ultimately show ?thesis
    using handleSave_failed[OF assms, of s] by blast
qed

text \<open>
  The scenario of the claim: the server answers the request with status 400 and the body
  \<^verbatim>\<open>{error: 'Invalid data', missingFields: ['youtubeUrl']}\<close>. The message reads
  \<^verbatim>\<open>Failed to save video. Invalid data Missing: youtubeUrl\<close>, which contains the error text
  and the field name, and the snapshot is the one from before.
\<close>

theorem failed_save_keeps_snapshot_witness:
  "initialHotcuesRef
     (handleSave
        (loaded [[(''q'', JRef 1)], [(''time'', JNum (Num 12.5)), (''name'', JStr '''')]]
           (JRef 0) (playing_at 7.25))
        \<lparr>youtubeUrl = Some ''https://youtu.be/abc'', videoId = Some ''abc'',
          username = Some ''sam''\<rparr>
        (Rejected
           \<lparr>err_code = Some ''ERR_BAD_REQUEST'',
             err_message = ''Request failed with status code 400'',
             err_response = Some
               \<lparr>resp_data = \<lparr>err_error = Some ''Invalid data'', err_details = None,
                   err_missingFields = Some [''youtubeUrl''], err_type = None\<rparr>,
                 resp_statusText = ''Bad Request''\<rparr>\<rparr>)) = JRef 0 \<and>
   errorMessage
     \<lparr>err_code = Some ''ERR_BAD_REQUEST'',
       err_message = ''Request failed with status code 400'',
       err_response = Some
         \<lparr>resp_data = \<lparr>err_error = Some ''Invalid data'', err_details = None,
             err_missingFields = Some [''youtubeUrl''], err_type = None\<rparr>,
           resp_statusText = ''Bad Request''\<rparr>\<rparr> =
     ''Failed to save video. Invalid data Missing: youtubeUrl'' \<and>
   str_includes
     (errorMessage
        \<lparr>err_code = Some ''ERR_BAD_REQUEST'',
          err_message = ''Request failed with status code 400'',
          err_response = Some
            \<lparr>resp_data = \<lparr>err_error = Some ''Invalid data'', err_details = None,
                err_missingFields = Some [''youtubeUrl''], err_type = None\<rparr>,
              resp_statusText = ''Bad Request''\<rparr>\<rparr>) ''Invalid data'' \<and>
   str_includes
     (errorMessage
        \<lparr>err_code = Some ''ERR_BAD_REQUEST'',
          err_message = ''Request failed with status code 400'',
          err_response = Some
            \<lparr>resp_data = \<lparr>err_error = Some ''Invalid data'', err_details = None,
                err_missingFields = Some [''youtubeUrl''], err_type = None\<rparr>,
              resp_statusText = ''Bad Request''\<rparr>\<rparr>) ''youtubeUrl''"
proof -
  let ?s = "loaded [[(''q'', JRef 1)], [(''time'', JNum (Num 12.5)), (''name'', JStr '''')]]
              (JRef 0) (playing_at 7.25)"
  let ?ps = "\<lparr>youtubeUrl = Some ''https://youtu.be/abc'', videoId = Some ''abc'',
               username = Some ''sam''\<rparr>"
  let ?resp = "\<lparr>resp_data = \<lparr>err_error = Some ''Invalid data'', err_details = None,
                   err_missingFields = Some [''youtubeUrl''], err_type = None\<rparr>,
                 resp_statusText = ''Bad Request''\<rparr>"
  let ?err = "\<lparr>err_code = Some ''ERR_BAD_REQUEST'',
                err_message = ''Request failed with status code 400'',
                err_response = Some ?resp\<rparr>"
  have nt: "\<not> str_includes (err_message ?err) ''timeout''"
    unfolding str_includes_def by code_simp
  have cl: "err_code ?err \<noteq> Some ''ECONNREFUSED'' \<and> err_code ?err \<noteq> Some ''ERR_NETWORK'' \<and>
            err_code ?err \<noteq> Some ''ECONNABORTED'' \<and> \<not> str_includes (err_message ?err) ''timeout''"
    using nt by simp
  have "save_refused ?ps \<noteq> None \<or> Rejected ?err = Rejected ?err" by simp
  from failed_save_keeps_snapshot[OF this, of ?s]
  have snap: "initialHotcuesRef (handleSave ?s ?ps (Rejected ?err)) = initialHotcuesRef ?s"
    and resp: "err_code ?err \<noteq> Some ''ECONNREFUSED'' \<and> err_code ?err \<noteq> Some ''ERR_NETWORK'' \<and>
          err_code ?err \<noteq> Some ''ECONNABORTED'' \<and> \<not> str_includes (err_message ?err) ''timeout'' \<longrightarrow>
            (\<forall>resp. err_response ?err = Some resp \<longrightarrow>
               errorMessage ?err =
                 ''Failed to save video. '' @
                 or_else (err_error (resp_data resp))
                   (or_else (err_details (resp_data resp)) (resp_statusText resp)) @
                 (case err_missingFields (resp_data resp) of
                    None \<Rightarrow> ''''
                  | Some missing \<Rightarrow> '' Missing: '' @ join '', '' missing) @
                 (case err_type (resp_data resp) of
                    None \<Rightarrow> ''''
                  | Some t \<Rightarrow> if t = '''' then '''' else '' ('' @ t @ '')'') \<and>
               (\<forall>e. err_error (resp_data resp) = Some e \<longrightarrow> str_includes (errorMessage ?err) e) \<and>
               (\<forall>fs. err_missingFields (resp_data resp) = Some fs \<longrightarrow>
                  (\<forall>f \<in> set fs. str_includes (errorMessage ?err) f)))"
    by blast+
  have rsp: "err_response ?err = Some ?resp" by simp
  from resp cl rsp have r: "errorMessage ?err =
                 ''Failed to save video. '' @
                 or_else (err_error (resp_data ?resp))
                   (or_else (err_details (resp_data ?resp)) (resp_statusText ?resp)) @
                 (case err_missingFields (resp_data ?resp) of
                    None \<Rightarrow> ''''
                  | Some missing \<Rightarrow> '' Missing: '' @ join '', '' missing) @
                 (case err_type (resp_data ?resp) of
                    None \<Rightarrow> ''''
                  | Some t \<Rightarrow> if t = '''' then '''' else '' ('' @ t @ '')'')"
    and e: "\<forall>e. err_error (resp_data ?resp) = Some e \<longrightarrow> str_includes (errorMessage ?err) e"
    and f: "\<forall>fs. err_missingFields (resp_data ?resp) = Some fs \<longrightarrow>
                  (\<forall>f \<in> set fs. str_includes (errorMessage ?err) f)"
    by blast+
  have ee: "err_error (resp_data ?resp) = Some ''Invalid data''"
    and ff: "err_missingFields (resp_data ?resp) = Some [''youtubeUrl'']"
    and mm: "''youtubeUrl'' \<in> set [''youtubeUrl'']"
    by simp_all
  from snap have "initialHotcuesRef (handleSave ?s ?ps (Rejected ?err)) = JRef 0"
    by (simp add: loaded_def)
  moreover from r have "errorMessage ?err = ''Failed to save video. Invalid data Missing: youtubeUrl''"
    by (simp add: or_else_def)
  moreover from e ee have "str_includes (errorMessage ?err) ''Invalid data''" by blast
  moreover from f ff mm have "str_includes (errorMessage ?err) ''youtubeUrl''" by blast
  ultimately show ?thesis by blast
qed

section \<open>Claims about the snapshot and the live table\<close>

lemma set_at_current_time_extends:
  "initialHotcuesRef (set_at_current_time s p k) = initialHotcuesRef s \<and>
   (\<exists>ext. heap (set_at_current_time s p k) = heap s @ ext)"
proof (cases "getCurrentTime p")
  case (Inl err)
  then show ?thesis by (simp add: set_at_current_time_def Let_def)
next
  case (Inr now)
  show ?thesis
  proof (cases "typeof now = ''number'' \<and> \<not> isNaN now")
    case True
    with Inr show ?thesis by (simp add: set_at_current_time_def Let_def alloc_def)
  next
    case False
    then have "(typeof now = ''number'' \<and> \<not> isNaN now) = False" by simp
    with Inr show ?thesis by (simp add: set_at_current_time_def Let_def del: de_Morgan_conj)
  qed
qed

lemma toggle_playback_tables:
  "initialHotcuesRef (toggle_playback s) = initialHotcuesRef s \<and> heap (toggle_playback s) = heap s"
  by (simp add: toggle_playback_def Let_def split: option.splits sum.splits)

lemma handleKeyPress_extends:
  assumes "handleKeyPress s e = Inr s'"
  shows "initialHotcuesRef s' = initialHotcuesRef s \<and> (\<exists>ext. heap s' = heap s @ ext)"
  using assms
  by (auto simp: handleKeyPress_def Let_def and_then_def set_at_current_time_extends
        toggle_playback_tables jump_to_tables split: if_splits sum.splits)

lemma relabel_state_extends:
  assumes "relabel_state h prev k lab = Inr (h', r)"
  shows "\<exists>ext. h' = h @ ext"
  using assms
  by (auto simp: relabel_state_def Let_def and_then_def alloc_def split: if_splits sum.splits)

lemma relabel_ref_extends:
  assumes "relabel_ref h cur k lab = Inr (h', r)"
  shows "\<exists>ext. h' = h @ ext"
  using assms
  by (auto simp: relabel_ref_def and_then_def alloc_def split: if_splits sum.splits)

lemma handleHotcueLabelBlur_extends:
  assumes "handleHotcueLabelBlur s k = Inr s'"
  shows "initialHotcuesRef s' = initialHotcuesRef s \<and> (\<exists>ext. heap s' = heap s @ ext)"
proof -
  from assms obtain h1 r1 h2 r2 where
    a: "relabel_state (heap s) (hotcues s) k (editingLabel s) = Inr (h1, r1)"
    and b: "relabel_ref h1 (hotcuesRef s) k (editingLabel s) = Inr (h2, r2)"
    and s': "s' = s\<lparr>heap := h2, hotcues := r1, hotcuesRef := r2, editingHotcue := None,
                    editingLabel := JStr ''''\<rparr>"
    by (auto simp: handleHotcueLabelBlur_def and_then_def split: sum.splits)
  from relabel_state_extends[OF a] relabel_ref_extends[OF b] s' show ?thesis
    by auto
qed

lemma apply_edit_extends:
  assumes "apply_edit s ed = Inr s'"
  shows "initialHotcuesRef s' = initialHotcuesRef s \<and> (\<exists>ext. heap s' = heap s @ ext)"
proof (cases ed)
  case (Press e)
  with assms show ?thesis using handleKeyPress_extends by simp
next
  case (Clear k)
  with assms show ?thesis by (auto simp: clearHotcue_def alloc_def)
next
  case (Relabel k l)
  with assms handleHotcueLabelBlur_extends[of "s\<lparr>editingLabel := JStr l\<rparr>" k s']
  show ?thesis by simp
qed

lemma obj_at_append: "a < length h \<Longrightarrow> obj_at (h @ ext) a = obj_at h a"
  by (simp add: obj_at_def nth_append)

text \<open>
  Claim C7, as amended. Let the live table and the snapshot be tables of the store.
  A successful \<^verbatim>\<open>handleSave\<close> installs as snapshot a new object, different from the live
  table, whose properties are those of the live table: the two share their entry
  objects. \<^verbatim>\<open>discardChanges\<close> makes the live table the snapshot object itself. After
  either, every edit of the live table (a key press, \<^verbatim>\<open>clearHotcue\<close>, a label edit) that
  returns leaves the snapshot reference, every object the store held, and hence the
  keys and entries of the snapshot, as they were: the edits build new objects and
  write into no existing one.
\<close>

theorem edits_never_touch_snapshot:
  assumes "table_at (heap s) (hotcuesRef s)" "table_at (heap s) (initialHotcuesRef s)"
  shows "(save_refused ps = None \<and> s1 = handleSave s ps (Resolved m) \<longrightarrow>
            initialHotcuesRef s1 \<noteq> hotcuesRef s1 \<and> hotcuesRef s1 = hotcuesRef s \<and>
            own_props (heap s1) (initialHotcuesRef s1) = own_props (heap s1) (hotcuesRef s1) \<and>
            contents (heap s1) (initialHotcuesRef s1) = contents (heap s) (hotcuesRef s)) \<and>
         (s1 = discardChanges s \<longrightarrow>
            hotcuesRef s1 = initialHotcuesRef s1 \<and> initialHotcuesRef s1 = initialHotcuesRef s \<and>
            heap s1 = heap s) \<and>
         ((save_refused ps = None \<and> s1 = handleSave s ps (Resolved m) \<or> s1 = discardChanges s) \<and>
          apply_edit s1 ed = Inr s2 \<longrightarrow>
            initialHotcuesRef s2 = initialHotcuesRef s1 \<and>
            (\<forall>a < length (heap s1). obj_at (heap s2) a = obj_at (heap s1) a) \<and>
            contents (heap s2) (initialHotcuesRef s2) = contents (heap s1) (initialHotcuesRef s1))"
proof (intro conjI impI)
  let ?h = "heap s"
  let ?P = "own_props ?h (hotcuesRef s)"
  have saved: "heap s1 = ?h @ [?P] \<and> initialHotcuesRef s1 = JRef (length ?h) \<and>
               hotcuesRef s1 = hotcuesRef s"
    if "save_refused ps = None \<and> s1 = handleSave s ps (Resolved m)"
    using that by (simp add: handleSave_def save_settled_def alloc_def)
  have snap_table: "table_at (heap s1) (initialHotcuesRef s1)"
    if "save_refused ps = None \<and> s1 = handleSave s ps (Resolved m) \<or> s1 = discardChanges s"
    using that
  proof
    assume "save_refused ps = None \<and> s1 = handleSave s ps (Resolved m)"
    from saved[OF this] table_at_new[OF table_at_refs[OF assms(1)]] show ?thesis by simp
  next
    assume "s1 = discardChanges s"
    with assms(2) show ?thesis by (simp add: discardChanges_def)
  qed
  {
    assume a: "save_refused ps = None \<and> s1 = handleSave s ps (Resolved m)"
    note sv = saved[OF a]
    from assms(1) obtain a0 where a0: "hotcuesRef s = JRef a0" "a0 < length ?h"
      by (cases "hotcuesRef s") (auto simp: table_at_def)
    show "initialHotcuesRef s1 \<noteq> hotcuesRef s1" using sv a0 by simp
    show "hotcuesRef s1 = hotcuesRef s" using sv by simp
    show "own_props (heap s1) (initialHotcuesRef s1) = own_props (heap s1) (hotcuesRef s1)"
      using sv table_at_own_props_append[OF assms(1), of "[?P]"] by (simp add: obj_at_def)
    show "contents (heap s1) (initialHotcuesRef s1) = contents (heap s) (hotcuesRef s)"
      using sv contents_new[OF table_at_refs[OF assms(1)]] by (simp add: contents_def)
  }
  {
    assume "s1 = discardChanges s"
    then show "hotcuesRef s1 = initialHotcuesRef s1" "initialHotcuesRef s1 = initialHotcuesRef s"
      "heap s1 = heap s"
      by (simp_all add: discardChanges_def)
  }
  {
    assume b: "(save_refused ps = None \<and> s1 = handleSave s ps (Resolved m) \<or> s1 = discardChanges s) \<and>
               apply_edit s1 ed = Inr s2"
    from apply_edit_extends[of s1 ed s2] b obtain ext where
      ini: "initialHotcuesRef s2 = initialHotcuesRef s1" and ext: "heap s2 = heap s1 @ ext"
      by blast
    show "initialHotcuesRef s2 = initialHotcuesRef s1" by (rule ini)
    show "\<forall>a < length (heap s1). obj_at (heap s2) a = obj_at (heap s1) a"
      by (simp add: ext obj_at_append)
    from snap_table b have "table_at (heap s1) (initialHotcuesRef s1)" by blast
    from table_at_contents_append[OF this, of ext]
    show "contents (heap s2) (initialHotcuesRef s2) = contents (heap s1) (initialHotcuesRef s1)"
      by (simp add: ini ext)
  }
qed

text \<open>
  The claim on the table \<^verbatim>\<open>{q: {time: 12.5, name: ''}}\<close>: saved, then \<^verbatim>\<open>q\<close> cleared from the
  live table, the snapshot still reads \<^verbatim>\<open>{q: {time: 12.5, name: ''}}\<close>.
\<close>

theorem edits_never_touch_snapshot_witness:
  "contents
     (heap (clearHotcue
        (handleSave
           (loaded [[(''q'', JRef 1)], [(''time'', JNum (Num 12.5)), (''name'', JStr '''')]]
              (JRef 0) (playing_at 7.25))
           \<lparr>youtubeUrl = Some ''https://youtu.be/abc'', videoId = Some ''abc'',
             username = Some ''sam''\<rparr> (Resolved None)) ''q''))
     (initialHotcuesRef (clearHotcue
        (handleSave
           (loaded [[(''q'', JRef 1)], [(''time'', JNum (Num 12.5)), (''name'', JStr '''')]]
              (JRef 0) (playing_at 7.25))
           \<lparr>youtubeUrl = Some ''https://youtu.be/abc'', videoId = Some ''abc'',
             username = Some ''sam''\<rparr> (Resolved None)) ''q'')) =
     [(''q'', [(''time'', JNum (Num 12.5)), (''name'', JStr '''')])] \<and>
   contents
     (heap (clearHotcue
        (handleSave
           (loaded [[(''q'', JRef 1)], [(''time'', JNum (Num 12.5)), (''name'', JStr '''')]]
              (JRef 0) (playing_at 7.25))
           \<lparr>youtubeUrl = Some ''https://youtu.be/abc'', videoId = Some ''abc'',
             username = Some ''sam''\<rparr> (Resolved None)) ''q''))
     (hotcuesRef (clearHotcue
        (handleSave
           (loaded [[(''q'', JRef 1)], [(''time'', JNum (Num 12.5)), (''name'', JStr '''')]]
              (JRef 0) (playing_at 7.25))
           \<lparr>youtubeUrl = Some ''https://youtu.be/abc'', videoId = Some ''abc'',
             username = Some ''sam''\<rparr> (Resolved None)) ''q'')) = []"
proof -
  let ?h = "[[(''q'', JRef 1)], [(''time'', JNum (Num 12.5)), (''name'', JStr '''')]]"
  let ?s = "loaded ?h (JRef 0) (playing_at 7.25)"
  let ?ps = "\<lparr>youtubeUrl = Some ''https://youtu.be/abc'', videoId = Some ''abc'',
              username = Some ''sam''\<rparr>"
  let ?s1 = "handleSave ?s ?ps (Resolved None)"
  let ?s2 = "clearHotcue ?s1 ''q''"
  have t: "table_at (heap ?s) (hotcuesRef ?s)" "table_at (heap ?s) (initialHotcuesRef ?s)"
    by (simp_all add: loaded_def table_at_def refs_below_def obj_at_def)
  have ok: "save_refused ?ps = None"
    by (simp add: save_refused_def falsy_def)
  have ed: "apply_edit ?s1 (Clear ''q'') = Inr ?s2" by simp
  from edits_never_touch_snapshot[OF t, of ?ps ?s1 None "Clear ''q''" ?s2] ok ed
  have a: "contents (heap ?s1) (initialHotcuesRef ?s1) = contents (heap ?s) (hotcuesRef ?s)"
    and b: "contents (heap ?s2) (initialHotcuesRef ?s2) = contents (heap ?s1) (initialHotcuesRef ?s1)"
    by blast+
  have "contents (heap ?s) (hotcuesRef ?s) =
          [(''q'', [(''time'', JNum (Num 12.5)), (''name'', JStr '''')])]"
    by (simp add: loaded_def contents_def obj_at_def)
  with a b have "contents (heap ?s2) (initialHotcuesRef ?s2) =
          [(''q'', [(''time'', JNum (Num 12.5)), (''name'', JStr '''')])]"
    by simp
  moreover have "contents (heap ?s2) (hotcuesRef ?s2) = []"
    by (simp add: clearHotcue_def handleSave_def ok save_settled_def alloc_def loaded_def
          contents_def obj_at_def)
  ultimately show ?thesis by blast
qed

text \<open>
  Claim C7 as stated fails: the snapshot is not an independent copy. After a save the
  entry of \<^verbatim>\<open>q\<close> in the snapshot is the very object the live table holds, so an
  assignment to the \<^verbatim>\<open>time\<close> of the snapshot's entry shows in the live table. After a
  discard of a cleared table the live table is the snapshot object, and a property
  assigned to the snapshot is a property of the live table.
\<close>

theorem snapshot_shares_objects_counterexample:
  "get_prop
     (heap (handleSave
        (loaded [[(''q'', JRef 1)], [(''time'', JNum (Num 12.5)), (''name'', JStr '''')]]
           (JRef 0) (playing_at 7.25))
        \<lparr>youtubeUrl = Some ''https://youtu.be/abc'', videoId = Some ''abc'',
          username = Some ''sam''\<rparr> (Resolved None)))
     (initialHotcuesRef (handleSave
        (loaded [[(''q'', JRef 1)], [(''time'', JNum (Num 12.5)), (''name'', JStr '''')]]
           (JRef 0) (playing_at 7.25))
        \<lparr>youtubeUrl = Some ''https://youtu.be/abc'', videoId = Some ''abc'',
          username = Some ''sam''\<rparr> (Resolved None))) ''q'' = JRef 1 \<and>
   contents
     (assign
        (heap (handleSave
           (loaded [[(''q'', JRef 1)], [(''time'', JNum (Num 12.5)), (''name'', JStr '''')]]
              (JRef 0) (playing_at 7.25))
           \<lparr>youtubeUrl = Some ''https://youtu.be/abc'', videoId = Some ''abc'',
             username = Some ''sam''\<rparr> (Resolved None)))
        1 ''time'' (JNum (Num 99)))
     (hotcuesRef (handleSave
        (loaded [[(''q'', JRef 1)], [(''time'', JNum (Num 12.5)), (''name'', JStr '''')]]
           (JRef 0) (playing_at 7.25))
        \<lparr>youtubeUrl = Some ''https://youtu.be/abc'', videoId = Some ''abc'',
          username = Some ''sam''\<rparr> (Resolved None))) =
     [(''q'', [(''time'', JNum (Num 99)), (''name'', JStr '''')])] \<and>
   initialHotcuesRef
     (discardChanges (clearHotcue
        (loaded [[(''q'', JRef 1)], [(''time'', JNum (Num 12.5)), (''name'', JStr '''')]]
           (JRef 0) (playing_at 7.25)) ''q'')) = JRef 0 \<and>
   hotcuesRef
     (discardChanges (clearHotcue
        (loaded [[(''q'', JRef 1)], [(''time'', JNum (Num 12.5)), (''name'', JStr '''')]]
           (JRef 0) (playing_at 7.25)) ''q'')) = JRef 0 \<and>
   contents
     (assign
        (heap (discardChanges (clearHotcue
           (loaded [[(''q'', JRef 1)], [(''time'', JNum (Num 12.5)), (''name'', JStr '''')]]
              (JRef 0) (playing_at 7.25)) ''q'')))
        0 ''w'' (JRef 1))
     (hotcuesRef
        (discardChanges (clearHotcue
           (loaded [[(''q'', JRef 1)], [(''time'', JNum (Num 12.5)), (''name'', JStr '''')]]
              (JRef 0) (playing_at 7.25)) ''q''))) =
     [(''q'', [(''time'', JNum (Num 12.5)), (''name'', JStr '''')]),
      (''w'', [(''time'', JNum (Num 12.5)), (''name'', JStr '''')])]"
  by (simp add: handleSave_def save_refused_def falsy_def save_settled_def alloc_def loaded_def
        discardChanges_def clearHotcue_def assign_def contents_def get_prop_def obj_at_def)

section \<open>The tables stay tables of the store\<close>

lemma table_at_with_entry:
  assumes "table_at h v"
  shows "table_at (h @ [lit, AList.update k (JRef (length h)) (own_props h v)])
           (JRef (Suc (length h)))"
proof -
  let ?tbl = "AList.update k (JRef (length h)) (own_props h v)"
  have "refs_below (length (h @ [lit])) ?tbl"
    using table_at_refs[OF assms] by (simp add: refs_below_update refs_below_mono)
  from table_at_new[OF this] show ?thesis by simp
qed

lemma set_at_current_time_tables:
  assumes "table_at (heap s) (hotcuesRef s)" "table_at (heap s) (hotcues s)"
  shows "table_at (heap (set_at_current_time s p k)) (hotcuesRef (set_at_current_time s p k)) \<and>
         table_at (heap (set_at_current_time s p k)) (hotcues (set_at_current_time s p k))"
proof (cases "\<exists>t. getCurrentTime p = Inr (JNum (Num t))")
  case True
  then obtain t where "getCurrentTime p = Inr (JNum (Num t))" ..
  from set_at_current_time_valid[OF this, of s k] table_at_with_entry[OF assms(1)]
  show ?thesis by simp
next
  case False
  then have "\<And>t. getCurrentTime p \<noteq> Inr (JNum (Num t))" by blast
  from set_at_current_time_invalid[OF this, of s k] assms show ?thesis by simp
qed

lemma relabel_state_table:
  assumes "table_at h prev" "relabel_state h prev k lab = Inr (h', r)"
  shows "table_at h' r"
proof (cases "truthy (get_prop h prev k)")
  case True
  with assms(2) obtain t n where
    "h' = h @ [[(''time'', t), (''name'', n)], AList.update k (JRef (length h)) (own_props h prev)]"
    "r = JRef (Suc (length h))"
    by (auto simp: relabel_state_def Let_def and_then_def alloc_def split: sum.splits)
  with table_at_with_entry[OF assms(1)] show ?thesis by simp
next
  case False
  with assms(2) have "h' = h @ [own_props h prev]" "r = JRef (length h)"
    by (simp_all add: relabel_state_def Let_def alloc_def)
  with table_at_new[OF table_at_refs[OF assms(1)]] show ?thesis by simp
qed

lemma relabel_ref_table:
  assumes "table_at h cur" "relabel_ref h cur k lab = Inr (h', r)"
  shows "table_at h' r"
proof (cases "truthy (get_prop h cur k)")
  case True
  with assms(2) table_at_not_nullish[OF assms(1)] obtain t n where
    "h' = h @ [[(''time'', t), (''name'', n)], AList.update k (JRef (length h)) (own_props h cur)]"
    "r = JRef (Suc (length h))"
    by (auto simp: relabel_ref_def get_def and_then_def alloc_def split: sum.splits)
  with table_at_with_entry[OF assms(1)] show ?thesis by simp
next
  case False
  with assms table_at_not_nullish[OF assms(1)] show ?thesis
    by (simp add: relabel_ref_def get_def and_then_def)
qed

text \<open>
  Every edit that returns leaves the \<^verbatim>\<open>hotcues\<close> state, its ref and the snapshot as tables
  of the store.
\<close>

lemma apply_edit_tables:
  assumes "table_at (heap s) (hotcuesRef s)" "table_at (heap s) (hotcues s)"
    "table_at (heap s) (initialHotcuesRef s)" "apply_edit s ed = Inr s'"
  shows "table_at (heap s') (hotcuesRef s') \<and> table_at (heap s') (hotcues s') \<and>
         table_at (heap s') (initialHotcuesRef s')"
proof -
  from apply_edit_extends[OF assms(4)] obtain ext where
    ini: "initialHotcuesRef s' = initialHotcuesRef s" and ext: "heap s' = heap s @ ext"
    by blast
  have snap: "table_at (heap s') (initialHotcuesRef s')"
    using table_at_append[OF assms(3), of ext] by (simp add: ini ext)
  have "table_at (heap s') (hotcuesRef s') \<and> table_at (heap s') (hotcues s')"
  proof (cases ed)
    case (Press e)
    have tog: "hotcuesRef (toggle_playback s) = hotcuesRef s \<and>
        hotcues (toggle_playback s) = hotcues s \<and> heap (toggle_playback s) = heap s"
      by (simp add: toggle_playback_def Let_def split: option.splits sum.splits)
    from Press assms(4) have "handleKeyPress s e = Inr s'" by simp
    then show ?thesis
      using assms(1,2)
      by (auto simp: handleKeyPress_def Let_def and_then_def tog jump_to_tables
            set_at_current_time_tables[OF assms(1,2)] split: if_splits sum.splits)
  next
    case (Clear k)
    with assms(4) have s': "s' = clearHotcue s k" by simp
    have "refs_below (length (heap s)) (AList.delete k (own_props (heap s) (hotcues s)))"
      using table_at_refs[OF assms(2)] by (rule refs_below_delete)
    from table_at_new[OF this] show ?thesis
      by (simp add: s' clearHotcue_def alloc_def)
  next
    case (Relabel k l)
    with assms(4) obtain h1 r1 h2 r2 where
      a: "relabel_state (heap s) (hotcues s) k (JStr l) = Inr (h1, r1)"
      and b: "relabel_ref h1 (hotcuesRef s) k (JStr l) = Inr (h2, r2)"
      and s': "heap s' = h2" "hotcues s' = r1" "hotcuesRef s' = r2"
      by (auto simp: handleHotcueLabelBlur_def and_then_def split: sum.splits)
    from relabel_state_extends[OF a] obtain e1 where e1: "h1 = heap s @ e1" ..
    from relabel_ref_extends[OF b] obtain e2 where e2: "h2 = h1 @ e2" ..
    have "table_at h1 (hotcuesRef s)"
      using table_at_append[OF assms(1), of e1] by (simp add: e1)
    from relabel_ref_table[OF this b] have "table_at h2 r2" .
    moreover have "table_at h2 r1"
      using table_at_append[OF relabel_state_table[OF assms(2) a], of e2] by (simp add: e2)
    ultimately show ?thesis by (simp add: s')
  qed
  with snap show ?thesis by blast
qed

end
